theory Spec2Isabelle
  imports Main "HOL-Library.AList"
begin

section \<open>External collaborators: property trees, archives, errors\<close>

text \<open>
  Modelled from the spec: the property-list module (\<open>property_parser.Property\<close>) is
  imported by \<open>packageLoader.py\<close> but is not part of the sources. The spec describes it
  as an ordered tree of named nodes with values and optional children that supports
  "find first child by name with default", "find all children by name" and "iterate
  children". A node therefore carries a name, a string value and an ordered list of
  children (empty for a plain key/value line). A parsed file is the ordered list of its
  top-level nodes. Names are compared as written.
\<close>

datatype property = Property (name: string) (pvalue: string) (children: "property list")

text \<open>Every \<open>raise\<close> of the loader, and every exception of the Python runtime that
  the modelled paths can meet, is a value of this type.\<close>

datatype error =
    MissingField string
  | KeyError string
  | IOError string
  | IndexError
  | NameError string
  | AttributeError string
  | TypeError string

text \<open>\<open>Property.find_key(props, key)\<close> without a default: the first node of that
  name, or the missing-field failure.\<close>

definition find_key :: "property list \<Rightarrow> string \<Rightarrow> error + property" where
  "find_key props key =
     (case find (\<lambda>p. name p = key) props of
        None \<Rightarrow> Inl (MissingField key)
      | Some p \<Rightarrow> Inr p)"

text \<open>\<open>Property.find_key(props, key, [])\<close> read for its children: the children of
  the first node of that name, or no children at all.\<close>

definition find_key_children :: "property list \<Rightarrow> string \<Rightarrow> property list" where
  "find_key_children props key =
     (case find (\<lambda>p. name p = key) props of
        None \<Rightarrow> []
      | Some p \<Rightarrow> children p)"

definition find_all :: "property list \<Rightarrow> string \<Rightarrow> property list" where
  "find_all props key = filter (\<lambda>p. name p = key) props"

text \<open>\<open>info[key]\<close>: the value of a required field.\<close>

definition get_item :: "property \<Rightarrow> string \<Rightarrow> error + string" where
  "get_item info key =
     (case find (\<lambda>p. name p = key) (children info) of
        None \<Rightarrow> Inl (MissingField key)
      | Some p \<Rightarrow> Inr (pvalue p))"

text \<open>\<open>info[key, default]\<close> with a string default.\<close>

definition get_item_def :: "property \<Rightarrow> string \<Rightarrow> string \<Rightarrow> string" where
  "get_item_def info key dflt =
     (case find (\<lambda>p. name p = key) (children info) of
        None \<Rightarrow> dflt
      | Some p \<Rightarrow> pvalue p)"

text \<open>\<open>info[key, None]\<close>.\<close>

definition get_item_opt :: "property \<Rightarrow> string \<Rightarrow> string option" where
  "get_item_opt info key = map_option pvalue (find (\<lambda>p. name p = key) (children info))"

definition has_children :: "property \<Rightarrow> bool" where
  "has_children p = (children p \<noteq> [])"

text \<open>
  Modelled from the spec: an archive is the abstract capability "list entry names, open
  an entry"; the property-list parser is a black box from bytes to a tree. An archive is
  the association list from each entry path to the nodes its content parses to.
  \<open>zip.open\<close> of a path that is not an entry raises \<open>KeyError\<close>.
\<close>

type_synonym archive = "(string \<times> property list) list"

definition namelist :: "archive \<Rightarrow> string list" where
  "namelist zipf = map fst zipf"

definition zip_open :: "archive \<Rightarrow> string \<Rightarrow> error + property list" where
  "zip_open zipf path =
     (case map_of zipf path of
        None \<Rightarrow> Inl (KeyError path)
      | Some props \<Rightarrow> Inr props)"

section \<open>Strings: \<open>sep_values\<close> and \<open>desc_parse\<close>\<close>

text \<open>
  A string is the list of the bytes of its UTF-8 encoding. Comparing two strings,
  concatenating them and splitting one at an ASCII delimiter give the same result on the
  bytes as on the code points. \<open>str.strip()\<close> and \<open>str.casefold()\<close> do not: they are
  built-ins of Python that work by the Unicode properties of each code point. They are
  no part of the loader, and every function of the loader that reaches them takes them
  as the parameter \<open>py\<close>.
\<close>

record py_str =
  str_strip :: "string \<Rightarrow> string"
  str_casefold :: "string \<Rightarrow> string"

text \<open>\<open>str.split(delimiter)\<close> for the one-character delimiters the loader passes
  (\<open>','\<close> and \<open>';'\<close>).\<close>

fun split :: "char \<Rightarrow> string \<Rightarrow> string list" where
  "split d [] = [[]]"
| "split d (c # cs) =
     (if c = d then [] # split d cs
      else (case split d cs of
              [] \<Rightarrow> [[c]]
            | w # ws \<Rightarrow> (c # w) # ws))"

definition sep_values :: "py_str \<Rightarrow> string \<Rightarrow> char \<Rightarrow> string list" where
  "sep_values py str delimiter =
     filter (\<lambda>stripped. stripped \<noteq> []) (map (str_strip py) (split delimiter str))"

definition desc_parse :: "py_str \<Rightarrow> property \<Rightarrow> (string \<times> string) list" where
  "desc_parse py info =
     concat (map (\<lambda>prop.
        if has_children prop
        then map (\<lambda>line. (str_casefold py (name line), pvalue line)) (children prop)
        else [(''line'', pvalue prop)])
      (find_all (children info) ''description''))"

text \<open>\<open>get_selitem_data\<close>: authors and description are read first, then the optional
  short name, then the required name, then the icon.\<close>

definition get_selitem_data ::
  "py_str \<Rightarrow> property
   \<Rightarrow> error + (string \<times> string option \<times> string list \<times> string \<times> (string \<times> string) list)"
where
  "get_selitem_data py info =
     (let auth = sep_values py (get_item_def info ''authors'' []) (CHR '','');
          desc = desc_parse py info;
          short_name = get_item_opt info ''shortName''
      in case get_item info ''name'' of
           Inl e \<Rightarrow> Inl e
         | Inr nm \<Rightarrow> Inr (nm, short_name, auth, get_item_def info ''icon'' ''_blank'', desc))"

section \<open>Content objects\<close>

text \<open>\<open>loadAll\<close> attaches \<open>pak_id\<close> and \<open>pak_name\<close> to every object it stores; a
  freshly parsed object has neither.\<close>

record pak_attrs =
  pak_id :: "string option"
  pak_name :: "string option"

text \<open>
  A \<open>Style\<close>. The attribute \<open>bases\<close> is assigned by \<open>setup_style_tree\<close> only and never
  read before; here it is the empty list until then. The Python list holds references
  to \<open>Style\<close> objects of the index, of which only \<open>.id\<close> is ever read, so the
  field holds their ids.
\<close>

record style = pak_attrs +
  style_id :: string
  style_auth :: "string list"
  style_name :: string
  style_desc :: "(string \<times> string) list"
  style_icon :: string
  style_short_name :: string
  style_editor :: "property list"
  base_style :: "string option"
  suggested :: "(string \<times> string \<times> string \<times> string) option"
  style_config :: property
  bases :: "string list"

text \<open>The per-folder data of an item, built by \<open>Item.parse\<close>.\<close>

record folder =
  folder_auth :: "string list"
  folder_tags :: "string list"
  folder_desc :: "(string \<times> string) list"
  folder_ent :: string
  folder_url :: "string option"
  folder_icons :: "(string \<times> string) list"
  folder_editor :: "property list"
  folder_vbsp :: "property list option"

text \<open>What a version's \<open>styles\<close> entry or \<open>def_style\<close> can hold: \<open>None\<close>, a folder
  identifier as read from the manifest, or the folder's loaded data.\<close>

datatype style_data = PyNone | FolderId string | FolderData folder

text \<open>One element of \<open>Item.versions\<close>: the dict with the keys \<open>name\<close>, \<open>is_beta\<close>,
  \<open>is_dep\<close>, \<open>styles\<close> and \<open>def_style\<close>. The \<open>styles\<close> dict is an association list in
  insertion order with distinct keys.\<close>

record version =
  ver_name :: string
  is_beta :: bool
  is_dep :: bool
  styles :: "(string \<times> style_data) list"
  def_style :: style_data

record item = pak_attrs +
  item_id :: string
  versions :: "version list"
  def_data :: style_data

record voice = pak_attrs +
  voice_id :: string
  voice_name :: string
  voice_icon :: string
  voice_short_name :: string
  voice_desc :: "(string \<times> string) list"
  voice_auth :: "string list"
  voice_config :: "property list"

record skybox = pak_attrs +
  skybox_id :: string
  skybox_short_name :: string
  skybox_name :: string
  skybox_icon :: string
  skybox_material :: string
  skybox_config :: "property list"
  skybox_auth :: "string list"
  skybox_desc :: "(string \<times> string) list"

record goo = pak_attrs +
  goo_id :: string
  goo_short_name :: string
  goo_name :: string
  goo_icon :: string
  goo_material :: string
  goo_cheap_material :: string
  goo_auth :: "string list"
  goo_desc :: "(string \<times> string) list"
  goo_config :: "property list"

record music = pak_attrs +
  music_id :: string
  music_short_name :: string
  music_name :: string
  music_icon :: string
  music_inst :: string
  music_auth :: "string list"
  music_desc :: "(string \<times> string) list"
  music_config :: "property list"

record stylevar = pak_attrs +
  stylevar_id :: string
  stylevar_name :: string
  stylevar_styles :: "string list"
  stylevar_default :: bool

text \<open>The \<open>data\<close> dict of the module: for each category name the list of its
  objects.\<close>

record data =
  data_Style :: "style list"
  data_Item :: "item list"
  data_QuotePack :: "voice list"
  data_Skybox :: "skybox list"
  data_Goo :: "goo list"
  data_Music :: "music list"
  data_StyleVar :: "stylevar list"

section \<open>Style inheritance: \<open>setup_style_tree\<close>\<close>

text \<open>\<open>styles[style.id] = style\<close> for each style of \<open>data['Style']\<close>: a dict keeps the
  position of the first insertion of a key and the value of the last.\<close>

definition style_index :: "style list \<Rightarrow> (string \<times> style) list" where
  "style_index ss = foldl (\<lambda>idx s. AList.update (style_id s) s idx) [] ss"

text \<open>\<open>styles.get(b_style.base_style, None)\<close>.\<close>

definition styles_get :: "(string \<times> style) list \<Rightarrow> string option \<Rightarrow> style option" where
  "styles_get idx b = (case b of None \<Rightarrow> None | Some k \<Rightarrow> map_of idx k)"

text \<open>The \<open>while b_style is not None\<close> loop. Nothing bounds it, so it is a partial
  function: \<open>None\<close> is "the loop does not return".\<close>

partial_function (option) find_bases ::
  "(string \<times> style) list \<Rightarrow> style option \<Rightarrow> style list \<Rightarrow> style list option"
where
  "find_bases idx b_style base =
     (case b_style of
        None \<Rightarrow> Some base
      | Some s \<Rightarrow> find_bases idx (styles_get idx (base_style s)) (base @ [s]))"

text \<open>\<open>for style in styles.values(): ...; style.bases = base[:]\<close>. The result is the
  index with every style's \<open>bases\<close> assigned.\<close>

fun set_bases ::
  "(string \<times> style) list \<Rightarrow> (string \<times> style) list \<Rightarrow> (string \<times> style) list option"
where
  "set_bases idx [] = Some []"
| "set_bases idx ((k, s) # rest) =
     (case find_bases idx (Some s) [] of
        None \<Rightarrow> None
      | Some base \<Rightarrow>
          (case set_bases idx rest of
             None \<Rightarrow> None
           | Some rest' \<Rightarrow> Some ((k, s\<lparr>bases := map style_id base\<rparr>) # rest')))"

text \<open>The inner \<open>for base_style in style.bases\<close> with its \<open>break\<close>: the data of the
  first style of the chain whose id is a key of the mapping, if there is one.\<close>

fun first_base :: "(string \<times> style_data) list \<Rightarrow> string list \<Rightarrow> style_data option" where
  "first_base m [] = None"
| "first_base m (b # bs) =
     (case map_of m b of
        Some v \<Rightarrow> Some v
      | None \<Rightarrow> first_base m bs)"

text \<open>The body of \<open>for id, style in styles.items()\<close> for one version.\<close>

definition fill_style :: "version \<Rightarrow> string \<times> style \<Rightarrow> version" where
  "fill_style vers ks =
     (case ks of (k, sty) \<Rightarrow>
        if k \<in> fst ` set (styles vers) then vers
        else (case first_base (styles vers) (bases sty) of
                Some v \<Rightarrow> vers\<lparr>styles := AList.update k v (styles vers)\<rparr>
              | None \<Rightarrow> vers\<lparr>styles := AList.update k (def_style vers) (styles vers)\<rparr>))"

definition fill_version :: "(string \<times> style) list \<Rightarrow> version \<Rightarrow> version" where
  "fill_version idx vers = foldl fill_style vers idx"

definition fill_item :: "(string \<times> style) list \<Rightarrow> item \<Rightarrow> item" where
  "fill_item idx it = it\<lparr>versions := map (fill_version idx) (versions it)\<rparr>"

text \<open>The \<open>Style\<close> objects of \<open>data['Style']\<close> after the first loop: the object the
  index holds for an id is the last one of that id in the list, and only that one has
  been assigned its \<open>bases\<close>.\<close>

fun assign_bases :: "(string \<times> style) list \<Rightarrow> style list \<Rightarrow> style list" where
  "assign_bases idx [] = []"
| "assign_bases idx (s # rest) =
     (if style_id s \<in> set (map style_id rest) then s
      else (case map_of idx (style_id s) of Some s' \<Rightarrow> s' | None \<Rightarrow> s))
     # assign_bases idx rest"

definition setup_style_tree :: "data \<Rightarrow> data option" where
  "setup_style_tree d =
     (let idx = style_index (data_Style d) in
      case set_bases idx idx of
        None \<Rightarrow> None
      | Some idx' \<Rightarrow>
          Some (d\<lparr>data_Style := assign_bases idx' (data_Style d),
                   data_Item := map (fill_item idx') (data_Item d)\<rparr>))"

text \<open>The base-style graph of an index: an edge from each indexed id to the id of the
  style its \<open>base_style\<close> resolves to. It is what the \<open>while\<close> loop follows.\<close>

definition base_edges :: "(string \<times> style) list \<Rightarrow> (string \<times> string) set" where
  "base_edges idx =
     set (concat (map (\<lambda>ks. case styles_get idx (base_style (snd ks)) of
                               None \<Rightarrow> []
                             | Some s2 \<Rightarrow> [(fst ks, style_id s2)]) idx))"

text \<open>What a style without an entry of its own is to receive: the data of the first
  style of the chain that has an entry in the mapping, or else the default.\<close>

definition inherited :: "(string \<times> style_data) list \<Rightarrow> string list \<Rightarrow> style_data \<Rightarrow> style_data" where
  "inherited m chain d = (case first_base m chain of Some v \<Rightarrow> v | None \<Rightarrow> d)"

section \<open>Category parsers\<close>

subsection \<open>Style\<close>

text \<open>\<open>Style.__init__\<close>. \<open>suggested or {}\<close>: \<open>None\<close> stands for the empty dict.\<close>

definition Style_init ::
  "string \<Rightarrow> string \<Rightarrow> string list \<Rightarrow> (string \<times> string) list \<Rightarrow> string \<Rightarrow> property list
   \<Rightarrow> property list option \<Rightarrow> string option \<Rightarrow> string option
   \<Rightarrow> (string \<times> string \<times> string \<times> string) option \<Rightarrow> style"
where
  "Style_init ident nm author desc icon editor config base short_name sugg =
     \<lparr>pak_id = None, pak_name = None,
      style_id = ident,
      style_auth = author,
      style_name = nm,
      style_desc = desc,
      style_icon = icon,
      style_short_name = (case short_name of None \<Rightarrow> nm | Some sn \<Rightarrow> sn),
      style_editor = editor,
      base_style = base,
      suggested = sugg,
      style_config = (case config of
                        None \<Rightarrow> Property ''ItemData'' [] []
                      | Some c \<Rightarrow> Property ''ItemData'' [] c),
      bases = []\<rparr>"

text \<open>\<open>info.find_key(key, [])\<close> kept as a node: the first child of that name, or a
  node of that name without children.\<close>

definition find_key_def :: "property \<Rightarrow> string \<Rightarrow> property" where
  "find_key_def info key =
     (case find (\<lambda>p. name p = key) (children info) of
        None \<Rightarrow> Property key [] []
      | Some p \<Rightarrow> p)"

definition Style_parse :: "py_str \<Rightarrow> archive \<Rightarrow> string \<Rightarrow> property \<Rightarrow> error + style" where
  "Style_parse py zipf ident info =
     (case get_selitem_data py info of
        Inl e \<Rightarrow> Inl e
      | Inr (nm, short_name, auth, icon, desc) \<Rightarrow>
          let base = get_item_def info ''base'' ''NONE'';
              sugg0 = find_key_def info ''suggested'';
              sugg = (get_item_def sugg0 ''quote'' [], get_item_def sugg0 ''music'' [],
                      get_item_def sugg0 ''skybox'' [], get_item_def sugg0 ''goo'' []);
              short_name' = (if short_name = Some [] then None else short_name);
              base' = (if base = ''NONE'' then None else Some base);
              files = namelist zipf
          in case get_item info ''folder'' of
               Inl e \<Rightarrow> Inl e
             | Inr fld \<Rightarrow>
                 let folder = ''styles/'' @ fld;
                     config = folder @ ''/vbsp_config.cfg''
                 in case zip_open zipf (folder @ ''/items.txt'') of
                      Inl e \<Rightarrow> Inl e
                    | Inr items \<Rightarrow>
                        (if config \<in> set files
                         then (case zip_open zipf config of
                                 Inl e \<Rightarrow> Inl e
                               | Inr vbsp \<Rightarrow>
                                   Inr (Style_init ident nm auth desc icon items (Some vbsp)
                                          base' short_name' (Some sugg)))
                         else Inr (Style_init ident nm auth desc icon items None
                                     base' short_name' (Some sugg))))"

text \<open>\<open>Style.add_over\<close>, \<open>Item.add_over\<close> and \<open>Voice.add_over\<close> are \<open>pass\<close>.\<close>

definition Style_add_over :: "style \<Rightarrow> style \<Rightarrow> error + style" where
  "Style_add_over self override = Inr self"

subsection \<open>Item\<close>

text \<open>\<open>Item.__init__\<close>: \<open>versions[0]\<close> raises \<open>IndexError\<close> on the empty list.\<close>

definition Item_init :: "string \<Rightarrow> version list \<Rightarrow> error + item" where
  "Item_init ident vers =
     (case vers of
        [] \<Rightarrow> Inl IndexError
      | v # _ \<Rightarrow> Inr \<lparr>pak_id = None, pak_name = None,
                       item_id = ident, versions = vers, def_data = def_style v\<rparr>)"

text \<open>The body of \<open>for sty in sty_list\<close>: the state is the version dict \<open>vals\<close> and
  the keys of \<open>folders\<close> in insertion order.\<close>

definition read_sty :: "version \<times> string list \<Rightarrow> property \<Rightarrow> version \<times> string list" where
  "read_sty st sty =
     (case st of (vals, folders) \<Rightarrow>
        (vals\<lparr>def_style := (if def_style vals = PyNone then FolderId (pvalue sty)
                              else def_style vals),
               styles := AList.update (name sty) (FolderId (pvalue sty)) (styles vals)\<rparr>,
         if pvalue sty \<in> set folders then folders else folders @ [pvalue sty]))"

text \<open>The body of \<open>for ver in info.find_all("version")\<close>: the state is the list
  \<open>versions\<close>, the keys of \<open>folders\<close> and the variable \<open>vals\<close>, which is unbound before
  the first round.\<close>

definition read_version ::
  "version list \<times> string list \<times> version option \<Rightarrow> property
   \<Rightarrow> version list \<times> string list \<times> version option"
where
  "read_version st ver =
     (case st of (vers, folders, _) \<Rightarrow>
        let vals0 = \<lparr>ver_name = get_item_def ver ''name'' [],
                     is_beta = (get_item_def ver ''beta'' ''0'' = ''1''),
                     is_dep = (get_item_def ver ''deprecated'' ''0'' = ''1''),
                     styles = [],
                     def_style = PyNone\<rparr>;
            (vals, folders') =
               foldl read_sty (vals0, folders)
                 (concat (map children (find_all (children ver) ''styles'')))
        in (vers @ [vals], folders', Some vals))"

definition py_str_bool :: "bool \<Rightarrow> string" where
  "py_str_bool b = (if b then ''True'' else ''False'')"

text \<open>The body of \<open>for fold in folders\<close>: the data of one folder, or the \<open>IOError\<close>.\<close>

definition load_folder :: "py_str \<Rightarrow> archive \<Rightarrow> string \<Rightarrow> error + folder" where
  "load_folder py zipf fld =
     (let files = namelist zipf;
          props = ''items/'' @ fld @ ''/properties.txt'';
          editor = ''items/'' @ fld @ ''/editoritems.txt'';
          config = ''items/'' @ fld @ ''/vbsp_config.cfg''
      in if props \<in> set files \<and> editor \<in> set files
         then (case zip_open zipf props of
                 Inl e \<Rightarrow> Inl e
               | Inr prop_file \<Rightarrow>
                   (case find_key prop_file ''Properties'' of
                      Inl e \<Rightarrow> Inl e
                    | Inr props' \<Rightarrow>
                        (case zip_open zipf editor of
                           Inl e \<Rightarrow> Inl e
                         | Inr editor' \<Rightarrow>
                             let fdata =
                               \<lparr>folder_auth = sep_values py (get_item_def props' ''authors'' []) (CHR '',''),
                                folder_tags = sep_values py (get_item_def props' ''tags'' []) (CHR '';''),
                                folder_desc = desc_parse py props',
                                folder_ent = get_item_def props' ''ent_count'' ''??'',
                                folder_url = get_item_opt props' ''infoURL'',
                                folder_icons =
                                  foldl (\<lambda>d p. AList.update (name p) (pvalue p) d) []
                                    (find_key_children (children props') ''icon''),
                                folder_editor = find_all editor' ''Item'',
                                folder_vbsp = None\<rparr>
                             in if config \<in> set files
                                then (case zip_open zipf config of
                                        Inl e \<Rightarrow> Inl e
                                      | Inr vbsp \<Rightarrow> Inr (fdata\<lparr>folder_vbsp := Some vbsp\<rparr>))
                                else Inr fdata)))
         else Inl (IOError ([CHR 0x22] @ ''items/'' @ fld @ [CHR 0x22]
                     @ '' not valid! Folder likely missing! (Editor=''
                     @ py_str_bool (editor \<in> set files) @ '', Props=''
                     @ py_str_bool (props \<in> set files) @ '')'')))"

fun load_folders :: "py_str \<Rightarrow> archive \<Rightarrow> string list \<Rightarrow> error + (string \<times> folder) list" where
  "load_folders py zipf [] = Inr []"
| "load_folders py zipf (fld # rest) =
     (case load_folder py zipf fld of
        Inl e \<Rightarrow> Inl e
      | Inr fdata \<Rightarrow>
          (case load_folders py zipf rest of
             Inl e \<Rightarrow> Inl e
           | Inr rest' \<Rightarrow> Inr ((fld, fdata) # rest')))"

text \<open>\<open>folders[x]\<close> on the loaded folders. \<open>None\<close> is no key of the dict; a dict is
  unhashable.\<close>

definition folders_get :: "(string \<times> folder) list \<Rightarrow> style_data \<Rightarrow> error + style_data" where
  "folders_get folders x =
     (case x of
        PyNone \<Rightarrow> Inl (KeyError ''None'')
      | FolderId f \<Rightarrow>
          (case map_of folders f of
             None \<Rightarrow> Inl (KeyError f)
           | Some fdata \<Rightarrow> Inr (FolderData fdata))
      | FolderData _ \<Rightarrow> Inl (TypeError ''unhashable type''))"

text \<open>\<open>x in folders\<close>.\<close>

definition in_folders :: "(string \<times> folder) list \<Rightarrow> style_data \<Rightarrow> error + bool" where
  "in_folders folders x =
     (case x of
        PyNone \<Rightarrow> Inr False
      | FolderId f \<Rightarrow> Inr (f \<in> fst ` set folders)
      | FolderData _ \<Rightarrow> Inl (TypeError ''unhashable type''))"

text \<open>\<open>for sty, fold in ver['styles'].items(): ver['styles'][sty] = folders[fold]\<close>.\<close>

fun rewrite_styles ::
  "(string \<times> folder) list \<Rightarrow> (string \<times> style_data) list \<Rightarrow> error + (string \<times> style_data) list"
where
  "rewrite_styles folders [] = Inr []"
| "rewrite_styles folders ((sty, fld) # rest) =
     (case folders_get folders fld of
        Inl e \<Rightarrow> Inl e
      | Inr fdata \<Rightarrow>
          (case rewrite_styles folders rest of
             Inl e \<Rightarrow> Inl e
           | Inr rest' \<Rightarrow> Inr ((sty, fdata) # rest')))"

text \<open>
  The body of the last loop of \<open>Item.parse\<close>, \<open>for ver in versions\<close>. The source reads
  \<open>folders[vals['def_style']]\<close>: \<open>vals\<close> is the variable of the first loop, which after
  that loop is the dict of the last version read. That dict is rewritten last, so
  whenever the lookup runs \<open>vals['def_style']\<close> is still what the first loop left there;
  it is the parameter \<open>vals_def\<close> (\<open>None\<close> when \<open>vals\<close> is unbound).
\<close>

definition rewrite_version ::
  "(string \<times> folder) list \<Rightarrow> style_data option \<Rightarrow> version \<Rightarrow> error + version"
where
  "rewrite_version folders vals_def ver =
     (case in_folders folders (def_style ver) of
        Inl e \<Rightarrow> Inl e
      | Inr present \<Rightarrow>
          (case (if present
                 then (case vals_def of
                         None \<Rightarrow> Inl (NameError ''vals'')
                       | Some d \<Rightarrow> folders_get folders d)
                 else Inr (def_style ver)) of
             Inl e \<Rightarrow> Inl e
           | Inr ds \<Rightarrow>
               (case rewrite_styles folders (styles ver) of
                  Inl e \<Rightarrow> Inl e
                | Inr sts \<Rightarrow> Inr (ver\<lparr>def_style := ds, styles := sts\<rparr>))))"

fun rewrite_versions ::
  "(string \<times> folder) list \<Rightarrow> style_data option \<Rightarrow> version list \<Rightarrow> error + version list"
where
  "rewrite_versions folders vals_def [] = Inr []"
| "rewrite_versions folders vals_def (ver # rest) =
     (case rewrite_version folders vals_def ver of
        Inl e \<Rightarrow> Inl e
      | Inr ver' \<Rightarrow>
          (case rewrite_versions folders vals_def rest of
             Inl e \<Rightarrow> Inl e
           | Inr rest' \<Rightarrow> Inr (ver' # rest')))"

definition Item_parse :: "py_str \<Rightarrow> archive \<Rightarrow> string \<Rightarrow> property \<Rightarrow> error + item" where
  "Item_parse py zipf ident info =
     (case foldl read_version ([], [], None) (find_all (children info) ''version'') of
        (vers, folders, vals) \<Rightarrow>
          (case load_folders py zipf folders of
             Inl e \<Rightarrow> Inl e
           | Inr fdata \<Rightarrow>
               (case rewrite_versions fdata (map_option def_style vals) vers of
                  Inl e \<Rightarrow> Inl e
                | Inr vers' \<Rightarrow> Item_init ident vers')))"

definition Item_add_over :: "item \<Rightarrow> item \<Rightarrow> error + item" where
  "Item_add_over self override = Inr self"

subsection \<open>Voice\<close>

definition Voice_init ::
  "string \<Rightarrow> string \<Rightarrow> property list \<Rightarrow> string \<Rightarrow> (string \<times> string) list
   \<Rightarrow> string list option \<Rightarrow> string option \<Rightarrow> voice"
where
  "Voice_init ident nm config icon desc auth short_name =
     \<lparr>pak_id = None, pak_name = None,
      voice_id = ident,
      voice_name = nm,
      voice_icon = icon,
      voice_short_name = (case short_name of None \<Rightarrow> nm | Some sn \<Rightarrow> sn),
      voice_desc = desc,
      voice_auth = (case auth of None \<Rightarrow> [] | Some a \<Rightarrow> a),
      voice_config = config\<rparr>"

text \<open>\<open>Voice.parse\<close> opens \<open>voice/<file>.voice\<close> without looking at the archive's
  entries first.\<close>

definition Voice_parse :: "py_str \<Rightarrow> archive \<Rightarrow> string \<Rightarrow> property \<Rightarrow> error + voice" where
  "Voice_parse py zipf ident info =
     (case get_selitem_data py info of
        Inl e \<Rightarrow> Inl e
      | Inr (nm, short_name, auth, icon, desc) \<Rightarrow>
          (case get_item info ''file'' of
             Inl e \<Rightarrow> Inl e
           | Inr file \<Rightarrow>
               (case zip_open zipf (''voice/'' @ file @ ''.voice'') of
                  Inl e \<Rightarrow> Inl e
                | Inr config \<Rightarrow>
                    Inr (Voice_init ident nm config icon desc (Some auth) short_name))))"

definition Voice_add_over :: "voice \<Rightarrow> voice \<Rightarrow> error + voice" where
  "Voice_add_over self override = Inr self"

subsection \<open>Skybox\<close>

definition Skybox_init ::
  "string \<Rightarrow> string \<Rightarrow> string \<Rightarrow> property list \<Rightarrow> string \<Rightarrow> string list
   \<Rightarrow> (string \<times> string) list \<Rightarrow> string option \<Rightarrow> skybox"
where
  "Skybox_init ident nm ico config mat auth desc short_name =
     \<lparr>pak_id = None, pak_name = None,
      skybox_id = ident,
      skybox_short_name = (case short_name of None \<Rightarrow> nm | Some sn \<Rightarrow> sn),
      skybox_name = nm,
      skybox_icon = ico,
      skybox_material = mat,
      skybox_config = config,
      skybox_auth = auth,
      skybox_desc = desc\<rparr>"

text \<open>
  \<open>Skybox.parse\<close>. The result is paired with the lines it prints. The path looked up
  in the archive is built from the display name, \<open>skybox/<name>.cfg\<close>; when it is an
  entry, the source opens the entry called \<open>name\<close>.
\<close>

definition Skybox_parse :: "py_str \<Rightarrow> archive \<Rightarrow> string \<Rightarrow> property \<Rightarrow> string list \<times> (error + skybox)" where
  "Skybox_parse py zipf ident info =
     (let config_dir = get_item_def info ''config'' []
      in case get_selitem_data py info of
           Inl e \<Rightarrow> ([], Inl e)
         | Inr (nm, short_name, auth, icon, desc) \<Rightarrow>
             let mat = get_item_def info ''material'' ''sky_black''
             in if config_dir = []
                then ([], Inr (Skybox_init ident nm icon [] mat auth desc short_name))
                else let path = ''skybox/'' @ nm @ ''.cfg''
                     in if path \<in> set (namelist zipf)
                        then (case zip_open zipf nm of
                                Inl e \<Rightarrow> ([], Inl e)
                              | Inr config \<Rightarrow>
                                  ([], Inr (Skybox_init ident nm icon config mat auth desc short_name)))
                        else ([nm @ ''.cfg not in zip!''],
                              Inr (Skybox_init ident nm icon [] mat auth desc short_name)))"

text \<open>\<open>Skybox.add_over\<close> reads \<open>sky.auth\<close>; no name \<open>sky\<close> is bound in the method or
  in the module.\<close>

definition Skybox_add_over :: "skybox \<Rightarrow> skybox \<Rightarrow> error + skybox" where
  "Skybox_add_over self override = Inl (NameError ''sky'')"

subsection \<open>Goo\<close>

text \<open>\<open>config or []\<close> is \<open>[]\<close> for \<open>None\<close> and for the empty list.\<close>

definition Goo_init ::
  "string \<Rightarrow> string \<Rightarrow> string \<Rightarrow> string \<Rightarrow> string \<Rightarrow> string list
   \<Rightarrow> (string \<times> string) list \<Rightarrow> string option \<Rightarrow> property list option \<Rightarrow> goo"
where
  "Goo_init ident nm ico mat mat_cheap auth desc short_name config =
     \<lparr>pak_id = None, pak_name = None,
      goo_id = ident,
      goo_short_name = (case short_name of None \<Rightarrow> nm | Some sn \<Rightarrow> sn),
      goo_name = nm,
      goo_icon = ico,
      goo_material = mat,
      goo_cheap_material = mat_cheap,
      goo_auth = auth,
      goo_desc = desc,
      goo_config = (case config of None \<Rightarrow> [] | Some c \<Rightarrow> c)\<rparr>"

definition Goo_parse :: "py_str \<Rightarrow> archive \<Rightarrow> string \<Rightarrow> property \<Rightarrow> error + goo" where
  "Goo_parse py zipf ident info =
     (case get_selitem_data py info of
        Inl e \<Rightarrow> Inl e
      | Inr (nm, short_name, auth, icon, desc) \<Rightarrow>
          let mat = get_item_def info ''material'' ''nature/toxicslime_a2_bridge_intro'';
              mat_cheap = get_item_def info ''material_cheap'' mat;
              config_dir = ''goo/'' @ get_item_def info ''config'' []
          in if config_dir \<in> set (namelist zipf)
             then (case zip_open zipf config_dir of
                     Inl e \<Rightarrow> Inl e
                   | Inr config \<Rightarrow>
                       Inr (Goo_init ident nm icon mat mat_cheap auth desc short_name (Some config)))
             else Inr (Goo_init ident nm icon mat mat_cheap auth desc short_name (Some [])))"

definition Goo_add_over :: "goo \<Rightarrow> goo \<Rightarrow> error + goo" where
  "Goo_add_over self override =
     Inr (self\<lparr>goo_config := goo_config self @ goo_config override,
               goo_auth := goo_auth self @ goo_auth override\<rparr>)"

subsection \<open>Music\<close>

definition Music_init ::
  "string \<Rightarrow> string \<Rightarrow> string \<Rightarrow> string \<Rightarrow> string list
   \<Rightarrow> (string \<times> string) list \<Rightarrow> string option \<Rightarrow> property list option \<Rightarrow> music"
where
  "Music_init ident nm ico inst auth desc short_name config =
     \<lparr>pak_id = None, pak_name = None,
      music_id = ident,
      music_short_name = (case short_name of None \<Rightarrow> nm | Some sn \<Rightarrow> sn),
      music_name = nm,
      music_icon = ico,
      music_inst = inst,
      music_auth = auth,
      music_desc = desc,
      music_config = (case config of None \<Rightarrow> [] | Some c \<Rightarrow> c)\<rparr>"

definition Music_parse :: "py_str \<Rightarrow> archive \<Rightarrow> string \<Rightarrow> property \<Rightarrow> error + music" where
  "Music_parse py zipf ident info =
     (case get_selitem_data py info of
        Inl e \<Rightarrow> Inl e
      | Inr (nm, short_name, auth, icon, desc) \<Rightarrow>
          (case get_item info ''instance'' of
             Inl e \<Rightarrow> Inl e
           | Inr inst \<Rightarrow>
               let config_dir = ''music/'' @ get_item_def info ''config'' []
               in if config_dir \<in> set (namelist zipf)
                  then (case zip_open zipf config_dir of
                          Inl e \<Rightarrow> Inl e
                        | Inr config \<Rightarrow>
                            Inr (Music_init ident nm icon inst auth desc short_name (Some config)))
                  else Inr (Music_init ident nm icon inst auth desc short_name (Some []))))"

definition Music_add_over :: "music \<Rightarrow> music \<Rightarrow> error + music" where
  "Music_add_over self override =
     Inr (self\<lparr>music_config := music_config self @ music_config override,
               music_auth := music_auth self @ music_auth override\<rparr>)"

subsection \<open>StyleVar\<close>

definition StyleVar_init :: "string \<Rightarrow> string \<Rightarrow> string list \<Rightarrow> bool \<Rightarrow> stylevar" where
  "StyleVar_init ident nm sts dflt =
     \<lparr>pak_id = None, pak_name = None,
      stylevar_id = ident,
      stylevar_name = nm,
      stylevar_styles = sts,
      stylevar_default = dflt\<rparr>"

definition StyleVar_parse :: "archive \<Rightarrow> string \<Rightarrow> property \<Rightarrow> error + stylevar" where
  "StyleVar_parse zipf ident info =
     (case get_item info ''name'' of
        Inl e \<Rightarrow> Inl e
      | Inr nm \<Rightarrow>
          Inr (StyleVar_init ident nm
                 (map pvalue (find_all (children info) ''Style''))
                 (get_item_def info ''enabled'' ''0'' = ''1'')))"

definition StyleVar_add_over :: "stylevar \<Rightarrow> stylevar \<Rightarrow> error + stylevar" where
  "StyleVar_add_over self override =
     Inr (self\<lparr>stylevar_styles := stylevar_styles self @ stylevar_styles override\<rparr>)"

section \<open>Definition collection: \<open>parse_package\<close>\<close>

text \<open>The keys of \<open>obj_types\<close>, in the order the dict literal lists them.\<close>

datatype category = Style | Item | QuotePack | Skybox | Goo | Music | StyleVar

definition obj_types :: "category list" where
  "obj_types = [Style, Item, QuotePack, Skybox, Goo, Music, StyleVar]"

fun type_name :: "category \<Rightarrow> string" where
  "type_name Style = ''Style''"
| "type_name Item = ''Item''"
| "type_name QuotePack = ''QuotePack''"
| "type_name Skybox = ''Skybox''"
| "type_name Goo = ''Goo''"
| "type_name Music = ''Music''"
| "type_name StyleVar = ''StyleVar''"

text \<open>An entry of \<open>obj[comp_type]\<close>: \<open>(zip, object, pak_id, dispName)\<close>. An entry of
  \<open>packages\<close>: \<open>(id, zip, info, name, dispName)\<close>.\<close>

type_synonym raw_def = "archive \<times> property \<times> string \<times> string"

type_synonym package = "string \<times> archive \<times> property list \<times> string \<times> string"

text \<open>
  What \<open>obj_override[comp_type]\<close> holds. \<open>loadAll\<close> initialises it to an empty dict;
  \<open>parse_package\<close> assigns a list of \<open>(zip, object)\<close> pairs to it.
\<close>

datatype over_store =
    OverDict "(string \<times> (archive \<times> property) list) list"
  | OverList "(archive \<times> property) list"

text \<open>\<open>id in obj_override[comp_type]\<close>: a key of the dict; never an element of the
  list, whose elements are tuples while \<open>id\<close> is a string.\<close>

fun in_over :: "over_store \<Rightarrow> string \<Rightarrow> bool" where
  "in_over (OverDict d) ident = (ident \<in> fst ` set d)"
| "in_over (OverList l) ident = False"

text \<open>\<open>obj_override[comp_type].append(x)\<close>: a dict has no \<open>append\<close>.\<close>

fun over_append :: "over_store \<Rightarrow> archive \<times> property \<Rightarrow> error + over_store" where
  "over_append (OverDict d) x = Inl (AttributeError ''append'')"
| "over_append (OverList l) x = Inr (OverList (l @ [x]))"

text \<open>The module's globals, with the lines printed so far. \<open>obj\<close> and \<open>obj_override\<close>
  have an entry for every category once \<open>loadAll\<close> has initialised them.\<close>

record loader =
  obj :: "category \<Rightarrow> (string \<times> raw_def) list"
  obj_override :: "category \<Rightarrow> over_store"
  packages :: "(string \<times> package) list"
  printed :: "string list"

text \<open>A loop whose body may raise: the first error ends it.\<close>

fun fold_err :: "('s \<Rightarrow> 'a \<Rightarrow> error + 's) \<Rightarrow> 's \<Rightarrow> 'a list \<Rightarrow> error + 's" where
  "fold_err f st [] = Inr st"
| "fold_err f st (x # xs) =
     (case f st x of
        Inl e \<Rightarrow> Inl e
      | Inr st' \<Rightarrow> fold_err f st' xs)"

text \<open>The body of \<open>for object in Property.find_all(info, comp_type)\<close>; the state is
  the counter \<open>objects\<close> and the globals.\<close>

definition collect ::
  "archive \<Rightarrow> string \<Rightarrow> string \<Rightarrow> category \<Rightarrow> nat \<times> loader \<Rightarrow> property \<Rightarrow> error + (nat \<times> loader)"
where
  "collect zipf pak dispName comp_type st object =
     (case st of (objects, g) \<Rightarrow>
        (case get_item object ''id'' of
           Inl e \<Rightarrow> Inl e
         | Inr ident \<Rightarrow>
             let is_sub = (get_item_def object ''overrideOrig'' ''0'' = ''1'')
             in if ident \<in> fst ` set (obj g comp_type)
                then (if is_sub
                      then (if in_over (obj_override g comp_type) ident
                            then (case over_append (obj_override g comp_type) (zipf, object) of
                                    Inl e \<Rightarrow> Inl e
                                  | Inr store \<Rightarrow>
                                      Inr (objects + 1,
                                           g\<lparr>obj_override := (obj_override g)(comp_type := store)\<rparr>))
                            else Inr (objects + 1,
                                      g\<lparr>obj_override :=
                                           (obj_override g)(comp_type := OverList [(zipf, object)])\<rparr>))
                      else Inr (objects + 1,
                                g\<lparr>printed := printed g
                                     @ [''ERROR! '' @ [CHR 0x22] @ ident @ [CHR 0x22]
                                        @ '' defined twice!'']\<rparr>))
                else Inr (objects + 1,
                          g\<lparr>obj := (obj g)(comp_type :=
                               AList.update ident (zipf, object, pak, dispName)
                                 (obj g comp_type))\<rparr>)))"

text \<open>\<open>parse_package\<close>. Its \<open>return False\<close> is the count \<open>0\<close>: the caller adds the
  result to a number. \<open>utils.con_log\<close> is taken as printing its line.\<close>

definition parse_package ::
  "archive \<Rightarrow> property list \<Rightarrow> string \<Rightarrow> string \<Rightarrow> string \<Rightarrow> loader \<Rightarrow> error + (nat \<times> loader)"
where
  "parse_package zipf info filename pak dispName g =
     (case find (\<lambda>pre. pvalue pre \<notin> fst ` set (packages g))
             (find_key_children info ''Prerequisites'') of
        Some pre \<Rightarrow>
          Inr (0, g\<lparr>printed := printed g
                      @ [''Package '' @ [CHR 0x22] @ pvalue pre @ [CHR 0x22]
                         @ '' required for '' @ [CHR 0x22] @ pak @ [CHR 0x22]
                         @ '' - ignoring package!'']\<rparr>)
      | None \<Rightarrow>
          fold_err
            (\<lambda>st comp_type.
               fold_err (collect zipf pak dispName comp_type) st
                 (find_all info (type_name comp_type)))
            (0, g) obj_types)"

section \<open>The whole load: \<open>loadAll\<close>\<close>

text \<open>
  One name of \<open>os.listdir(dir)\<close>: the name, the path \<open>os.path.join(dir, name)\<close>,
  whether the path is a directory, and the archive \<open>ZipFile\<close> opens there. The file
  system, the progress sink \<open>loadScreen\<close> and the extraction of resources are outside
  the model; of those only the printed lines are kept.
\<close>

record dir_entry =
  entry_name :: string
  entry_path :: string
  entry_is_dir :: bool
  entry_zip :: archive

definition endswith :: "string \<Rightarrow> string \<Rightarrow> bool" where
  "endswith str suf = (length suf \<le> length str \<and> drop (length str - length suf) str = suf)"

text \<open>The body of \<open>for name in contents\<close>.\<close>

definition read_package :: "loader \<Rightarrow> dir_entry \<Rightarrow> error + loader" where
  "read_package g e =
     (let g1 = g\<lparr>printed := printed g
                  @ [''Reading package file '' @ [CHR 0x27] @ entry_name e @ [CHR 0x27]]\<rparr>
      in if endswith (entry_path e) ''.zip'' \<and> \<not> entry_is_dir e
         then (if ''info.txt'' \<in> set (namelist (entry_zip e))
               then (case zip_open (entry_zip e) ''info.txt'' of
                       Inl err \<Rightarrow> Inl err
                     | Inr info \<Rightarrow>
                         (case find_key info ''ID'' of
                            Inl err \<Rightarrow> Inl err
                          | Inr idp \<Rightarrow>
                              let ident = pvalue idp;
                                  dispName = (case find (\<lambda>p. name p = ''Name'') info of
                                                None \<Rightarrow> ident
                                              | Some p \<Rightarrow> pvalue p)
                              in Inr (g1\<lparr>packages :=
                                          AList.update ident
                                            (ident, entry_zip e, info, entry_path e, dispName)
                                            (packages g1)\<rparr>)))
               else Inr (g1\<lparr>printed := printed g1
                              @ [''ERROR: Bad package'' @ [CHR 0x27] @ entry_path e
                                 @ [CHR 0x27] @ ''!'']\<rparr>))
         else Inr g1)"

text \<open>The body of \<open>for id, zip, info, name, dispName in packages.values()\<close>. Nothing
  catches what \<open>parse_package\<close> raises.\<close>

definition scan_package :: "nat \<times> loader \<Rightarrow> string \<times> package \<Rightarrow> error + (nat \<times> loader)" where
  "scan_package st kp =
     (case st of (objects, g) \<Rightarrow>
        (case kp of (_, ident, zipf, info, nm, dispName) \<Rightarrow>
           (case parse_package zipf info nm ident dispName
                   (g\<lparr>printed := printed g
                        @ [''Scanning package '' @ [CHR 0x27] @ ident @ [CHR 0x27]]\<rparr>) of
              Inl e \<Rightarrow> Inl e
            | Inr (new_objs, g') \<Rightarrow>
                Inr (objects + new_objs, g'\<lparr>printed := printed g' @ [''Done!'']\<rparr>))))"

text \<open>\<open>obj_override[type].get(id, [])\<close>: a list has no \<open>get\<close>.\<close>

fun over_get :: "over_store \<Rightarrow> string \<Rightarrow> error + (archive \<times> property) list" where
  "over_get (OverDict d) ident = Inr (case map_of d ident of None \<Rightarrow> [] | Some l \<Rightarrow> l)"
| "over_get (OverList l) ident = Inl (AttributeError ''get'')"

text \<open>
  The body of \<open>for id, obj_data in objs.items()\<close>, for the parser of one category; the
  state is the printed lines and \<open>data[type]\<close>. The stored pairs are \<open>(zip, object)\<close>
  and the loop header unpacks them as \<open>over, zip\<close>, so \<open>over[0]\<close> subscripts an archive
  as soon as there is one pair to apply.
\<close>

definition load_object ::
  "(archive \<Rightarrow> string \<Rightarrow> property \<Rightarrow> string list \<times> (error + 'a pak_attrs_scheme))
   \<Rightarrow> string \<Rightarrow> over_store \<Rightarrow> string list \<times> 'a pak_attrs_scheme list
   \<Rightarrow> string \<times> raw_def \<Rightarrow> error + (string list \<times> 'a pak_attrs_scheme list)"
where
  "load_object parse tname store st od =
     (case st of (out, objs) \<Rightarrow>
        (case od of (ident, zipf, node, pak, dispName) \<Rightarrow>
           let out1 = out @ [''Loading '' @ tname @ '' '' @ [CHR 0x22] @ ident @ [CHR 0x22] @ ''!'']
           in case over_get store ident of
                Inl e \<Rightarrow> Inl e
              | Inr over \<Rightarrow>
                  (case parse zipf ident node of
                     (lines, Inl e) \<Rightarrow> Inl e
                   | (lines, Inr object) \<Rightarrow>
                       let object' = object\<lparr>pak_id := Some pak, pak_name := Some dispName\<rparr>
                       in if in_over store ident
                          then (case over of
                                  [] \<Rightarrow> Inr (out1 @ lines, objs @ [object'])
                                | _ # _ \<Rightarrow> Inl (TypeError ''ZipFile is not subscriptable''))
                          else Inr (out1 @ lines, objs @ [object']))))"

text \<open>A parser that prints nothing.\<close>

definition silent ::
  "(archive \<Rightarrow> string \<Rightarrow> property \<Rightarrow> error + 'a)
   \<Rightarrow> archive \<Rightarrow> string \<Rightarrow> property \<Rightarrow> string list \<times> (error + 'a)"
where
  "silent parse zipf ident info = ([], parse zipf ident info)"

text \<open>\<open>for type, objs in obj.items()\<close> for one category.\<close>

definition load_category ::
  "(archive \<Rightarrow> string \<Rightarrow> property \<Rightarrow> string list \<times> (error + 'a pak_attrs_scheme))
   \<Rightarrow> category \<Rightarrow> loader \<Rightarrow> string list \<Rightarrow> error + (string list \<times> 'a pak_attrs_scheme list)"
where
  "load_category parse c g out =
     fold_err (load_object parse (type_name c) (obj_override g c)) (out, []) (obj g c)"

text \<open>
  \<open>loadAll\<close>, from the globals it finds and the listing of the directory. \<open>None\<close>: the
  call does not return; \<open>Some (Inl e)\<close>: it raises \<open>e\<close>; \<open>Some (Inr (data, g))\<close>: it
  returns \<open>data\<close> and leaves the globals \<open>g\<close>. The \<open>try ... finally\<close> closes the
  archives and catches nothing.
\<close>

definition loadAll :: "py_str \<Rightarrow> loader \<Rightarrow> dir_entry list \<Rightarrow> bool \<Rightarrow> (error + data \<times> loader) option" where
  "loadAll py g0 contents load_res =
     (case fold_err read_package g0 contents of
        Inl e \<Rightarrow> Some (Inl e)
      | Inr g1 \<Rightarrow>
          let g2 = g1\<lparr>obj := (\<lambda>_. []), obj_override := (\<lambda>_. OverDict [])\<rparr>
          in case fold_err scan_package (0, g2) (packages g2) of
               Inl e \<Rightarrow> Some (Inl e)
             | Inr (objects, g3) \<Rightarrow>
          (case load_category (silent (Style_parse py)) Style g3 (printed g3) of
             Inl e \<Rightarrow> Some (Inl e)
           | Inr (out1, d_style) \<Rightarrow>
          (case load_category (silent (Item_parse py)) Item g3 out1 of
             Inl e \<Rightarrow> Some (Inl e)
           | Inr (out2, d_item) \<Rightarrow>
          (case load_category (silent (Voice_parse py)) QuotePack g3 out2 of
             Inl e \<Rightarrow> Some (Inl e)
           | Inr (out3, d_voice) \<Rightarrow>
          (case load_category (Skybox_parse py) Skybox g3 out3 of
             Inl e \<Rightarrow> Some (Inl e)
           | Inr (out4, d_skybox) \<Rightarrow>
          (case load_category (silent (Goo_parse py)) Goo g3 out4 of
             Inl e \<Rightarrow> Some (Inl e)
           | Inr (out5, d_goo) \<Rightarrow>
          (case load_category (silent (Music_parse py)) Music g3 out5 of
             Inl e \<Rightarrow> Some (Inl e)
           | Inr (out6, d_music) \<Rightarrow>
          (case load_category (silent StyleVar_parse) StyleVar g3 out6 of
             Inl e \<Rightarrow> Some (Inl e)
           | Inr (out7, d_stylevar) \<Rightarrow>
               (case setup_style_tree
                       \<lparr>data_Style = d_style, data_Item = d_item, data_QuotePack = d_voice,
                        data_Skybox = d_skybox, data_Goo = d_goo, data_Music = d_music,
                        data_StyleVar = d_stylevar\<rparr> of
                  None \<Rightarrow> None
                | Some d \<Rightarrow>
                    Some (Inr (d, g3\<lparr>printed :=
                                 (if load_res then out7 @ [''Extracting Resources...'']
                                  else out7)\<rparr>)))))))))))"

text \<open>What holds of the globals while \<open>loadAll\<close> scans the packages: no category's
  override store has a key, and the package registry is the one the reading left.\<close>

definition scanning :: "(string \<times> package) list \<Rightarrow> loader \<Rightarrow> bool" where
  "scanning P g = ((\<forall>c k. \<not> in_over (obj_override g c) k) \<and> packages g = P)"

section \<open>Example inputs\<close>

text \<open>What \<open>str.strip()\<close> and \<open>str.casefold()\<close> do on ASCII text: the white space of
  ASCII is blank, tab, line feed, vertical tab, form feed, carriage return and the four
  separators \<open>0x1c\<close> to \<open>0x1f\<close>; the letters \<open>A\<close> to \<open>Z\<close> fold to \<open>a\<close> to \<open>z\<close>. The
  example inputs are ASCII.\<close>

definition ascii_space :: "char \<Rightarrow> bool" where
  "ascii_space c = (of_char c \<in> {32::nat, 9, 10, 11, 12, 13, 28, 29, 30, 31})"

definition ascii_strip :: "string \<Rightarrow> string" where
  "ascii_strip s = rev (dropWhile ascii_space (rev (dropWhile ascii_space s)))"

definition ascii_casefold :: "string \<Rightarrow> string" where
  "ascii_casefold s =
     map (\<lambda>c. if 65 \<le> (of_char c :: nat) \<and> (of_char c :: nat) \<le> 90
              then char_of (of_char c + (32::nat)) else c) s"

definition ascii_py :: py_str where
  "ascii_py = \<lparr>str_strip = ascii_strip, str_casefold = ascii_casefold\<rparr>"

definition example_loader :: loader where
  "example_loader =
     \<lparr>obj = (\<lambda>_. []), obj_override = (\<lambda>_. OverDict []), packages = [], printed = []\<rparr>"

text \<open>A style that has only an id and a base; a folder that has only an entity count; a
  version that declares the given styles, the first one being its default.\<close>

definition example_style :: "string \<Rightarrow> string option \<Rightarrow> style" where
  "example_style k b = Style_init k k [] [] ''_blank'' [] None b None None"

definition example_folder :: "string \<Rightarrow> folder" where
  "example_folder n =
     \<lparr>folder_auth = [], folder_tags = [], folder_desc = [], folder_ent = n,
      folder_url = None, folder_icons = [], folder_editor = [], folder_vbsp = None\<rparr>"

definition example_version :: "(string \<times> style_data) list \<Rightarrow> style_data \<Rightarrow> version" where
  "example_version sts d =
     \<lparr>ver_name = [], is_beta = False, is_dep = False, styles = sts, def_style = d\<rparr>"

definition example_item :: "string \<Rightarrow> version list \<Rightarrow> style_data \<Rightarrow> item" where
  "example_item k vs d =
     \<lparr>pak_id = None, pak_name = None, item_id = k, versions = vs, def_data = d\<rparr>"

definition example_data :: "style list \<Rightarrow> item list \<Rightarrow> data" where
  "example_data ss its =
     \<lparr>data_Style = ss, data_Item = its, data_QuotePack = [], data_Skybox = [],
      data_Goo = [], data_Music = [], data_StyleVar = []\<rparr>"

text \<open>An archive with the two item folders \<open>f1\<close> and \<open>f2\<close>, whose entity counts are
  \<open>1\<close> and \<open>2\<close>, and an item whose first version declares \<open>f1\<close> and whose second
  version declares \<open>f2\<close>.\<close>

definition example_archive :: archive where
  "example_archive =
     [(''items/f1/properties.txt'', [Property ''Properties'' [] [Property ''ent_count'' ''1'' []]]),
      (''items/f1/editoritems.txt'', []),
      (''items/f2/properties.txt'', [Property ''Properties'' [] [Property ''ent_count'' ''2'' []]]),
      (''items/f2/editoritems.txt'', [])]"

definition example_two_versions :: property where
  "example_two_versions =
     Property ''Item'' []
       [Property ''id'' ''w'' [],
        Property ''version'' [] [Property ''styles'' [] [Property ''A'' ''f1'' []]],
        Property ''version'' [] [Property ''styles'' [] [Property ''A'' ''f2'' []]]]"

text \<open>A directory entry \<open>packages/<n>.zip\<close> whose archive holds only the manifest.\<close>

definition example_entry :: "string \<Rightarrow> property list \<Rightarrow> dir_entry" where
  "example_entry n info =
     \<lparr>entry_name = n @ ''.zip'', entry_path = ''packages/'' @ n @ ''.zip'',
      entry_is_dir = False, entry_zip = [(''info.txt'', info)]\<rparr>"

section \<open>Properties of the style inheritance resolver\<close>

lemma fill_style_keys:
  "fst ` set (styles (fill_style v ks)) = insert (fst ks) (fst ` set (styles v))"
  by (cases ks) (auto simp: fill_style_def AList.dom_update split: option.splits)

lemma fill_version_keys:
  "fst ` set (styles (fill_version idx v)) = fst ` set (styles v) \<union> fst ` set idx"
  unfolding fill_version_def
  by (induction idx arbitrary: v) (auto simp: fill_style_keys)

lemma set_bases_keys: "set_bases idx l = Some l' \<Longrightarrow> map fst l' = map fst l"
  by (induction l arbitrary: l') (auto split: option.splits)

lemma find_bases_None: "find_bases idx None base = Some base"
  by (subst find_bases.simps) simp

lemma find_bases_Some:
  "find_bases idx (Some s) base = find_bases idx (styles_get idx (base_style s)) (base @ [s])"
  by (subst find_bases.simps) simp

lemma find_bases_acc:
  assumes "find_bases idx b acc = Some r"
  shows "\<exists>ch. r = acc @ ch \<and> (\<forall>acc'. find_bases idx b acc' = Some (acc' @ ch))"
proof -
  let ?P = "\<lambda>idx b acc r. \<exists>ch. r = acc @ ch \<and> (\<forall>acc'. find_bases idx b acc' = Some (acc' @ ch))"
  have "?P idx b acc r"
  proof (rule find_bases.raw_induct[where P = ?P, OF _ assms])
    fix f idx b acc r
    assume IH: "\<And>i b a y. f i b a = Some y \<Longrightarrow> ?P i b a y"
      and eq: "(case b of None \<Rightarrow> Some acc
                | Some s \<Rightarrow> f idx (styles_get idx (base_style s)) (acc @ [s])) = Some r"
    show "?P idx b acc r"
    proof (cases b)
      case None
      with eq show ?thesis by (simp add: find_bases_None)
    next
      case (Some s)
      with eq have "f idx (styles_get idx (base_style s)) (acc @ [s]) = Some r" by simp
      from IH[OF this] obtain ch where
        "r = (acc @ [s]) @ ch"
        "\<forall>acc'. find_bases idx (styles_get idx (base_style s)) acc' = Some (acc' @ ch)"
        by blast
      then have "r = acc @ (s # ch) \<and> (\<forall>acc'. find_bases idx b acc' = Some (acc' @ (s # ch)))"
        by (simp add: Some find_bases_Some)
      then show ?thesis by blast
    qed
  qed
  then show ?thesis .
qed

lemma find_bases_unfold:
  "find_bases idx (Some s) [] = Some ch \<longleftrightarrow>
     (\<exists>ch'. ch = s # ch' \<and> find_bases idx (styles_get idx (base_style s)) [] = Some ch')"
proof
  assume "find_bases idx (Some s) [] = Some ch"
  then have "find_bases idx (styles_get idx (base_style s)) [s] = Some ch"
    by (simp add: find_bases_Some)
  from find_bases_acc[OF this] show
    "\<exists>ch'. ch = s # ch' \<and> find_bases idx (styles_get idx (base_style s)) [] = Some ch'"
    by (metis append_Cons append_Nil)
next
  assume "\<exists>ch'. ch = s # ch' \<and> find_bases idx (styles_get idx (base_style s)) [] = Some ch'"
  then obtain ch' where ch: "ch = s # ch'"
    and "find_bases idx (styles_get idx (base_style s)) [] = Some ch'" by blast
  from find_bases_acc[OF this(2)]
  have "find_bases idx (styles_get idx (base_style s)) [s] = Some ([s] @ ch')"
    by auto
  then show "find_bases idx (Some s) [] = Some ch"
    by (simp add: find_bases_Some ch)
qed

lemma base_edges_iff:
  "(k, b) \<in> base_edges idx \<longleftrightarrow>
     (\<exists>s s2. (k, s) \<in> set idx \<and> styles_get idx (base_style s) = Some s2 \<and> b = style_id s2)"
  by (force simp: base_edges_def split: option.splits)

lemma set_update_subset:
  "x \<in> set (AList.update k v al) \<Longrightarrow> x = (k, v) \<or> x \<in> set al"
  by (induction al) (auto split: if_splits)

lemma style_index_key_aux:
  "\<forall>ks \<in> set acc. style_id (snd ks) = fst ks \<Longrightarrow>
   \<forall>ks \<in> set (foldl (\<lambda>idx s. AList.update (style_id s) s idx) acc ss). style_id (snd ks) = fst ks"
proof (induction ss arbitrary: acc)
  case Nil
  then show ?case by simp
next
  case (Cons s ss)
  have "\<forall>ks \<in> set (AList.update (style_id s) s acc). style_id (snd ks) = fst ks"
    using Cons.prems by (auto dest!: set_update_subset)
  from Cons.IH[OF this] show ?case by simp
qed

lemma style_index_key: "(k, s) \<in> set (style_index ss) \<Longrightarrow> style_id s = k"
  using style_index_key_aux[of "[]" ss] by (auto simp: style_index_def)

lemma style_index_distinct_aux:
  "distinct (map fst acc) \<Longrightarrow>
   distinct (map fst (foldl (\<lambda>idx s. AList.update (style_id s) s idx) acc ss))"
  by (induction ss arbitrary: acc) (auto simp: AList.distinct_update)

lemma style_index_distinct: "distinct (map fst (style_index ss))"
  by (simp add: style_index_def style_index_distinct_aux)

lemma chain_of_acyclic:
  assumes ac: "acyclic (base_edges idx)"
    and key: "\<And>k s. (k, s) \<in> set idx \<Longrightarrow> style_id s = k"
  shows "map_of idx k = Some s \<Longrightarrow>
     \<exists>ch. find_bases idx (Some s) [] = Some ch
        \<and> style_id ` set ch \<subseteq> insert k {x. (k, x) \<in> (base_edges idx)\<^sup>+}
        \<and> distinct (map style_id ch)"
proof -
  have fin: "finite (base_edges idx)" unfolding base_edges_def by (rule finite_set)
  have wf: "wf ((base_edges idx)\<inverse>)" by (rule finite_acyclic_wf_converse[OF fin ac])
  show "map_of idx k = Some s \<Longrightarrow>
     \<exists>ch. find_bases idx (Some s) [] = Some ch
        \<and> style_id ` set ch \<subseteq> insert k {x. (k, x) \<in> (base_edges idx)\<^sup>+}
        \<and> distinct (map style_id ch)"
  proof (induction k arbitrary: s rule: wf_induct_rule[OF wf])
    case (1 k)
    have ks: "(k, s) \<in> set idx" using 1(2) by (rule map_of_SomeD)
    then have id_s: "style_id s = k" by (rule key)
    show ?case
    proof (cases "styles_get idx (base_style s)")
      case None
      then have "find_bases idx (Some s) [] = Some [s]"
        by (simp add: find_bases_unfold find_bases_None)
      then show ?thesis using id_s by simp
    next
      case (Some s2)
      then obtain b where b: "base_style s = Some b" "map_of idx b = Some s2"
        by (auto simp: styles_get_def split: option.splits)
      have id_s2: "style_id s2 = b" using b(2) key map_of_SomeD by fastforce
      have edge: "(k, b) \<in> base_edges idx"
        using ks Some id_s2 by (auto simp: base_edges_iff)
      then have "(b, k) \<in> (base_edges idx)\<inverse>" by simp
      from 1(1)[OF this b(2)] obtain ch' where ch':
        "find_bases idx (Some s2) [] = Some ch'"
        "style_id ` set ch' \<subseteq> insert b {x. (b, x) \<in> (base_edges idx)\<^sup>+}"
        "distinct (map style_id ch')"
        by blast
      have fb: "find_bases idx (Some s) [] = Some (s # ch')"
        using ch'(1) Some by (simp add: find_bases_unfold)
      have sub: "style_id ` set ch' \<subseteq> {x. (k, x) \<in> (base_edges idx)\<^sup>+}"
      proof
        fix x assume "x \<in> style_id ` set ch'"
        with ch'(2) have "x = b \<or> (b, x) \<in> (base_edges idx)\<^sup>+" by auto
        then show "x \<in> {x. (k, x) \<in> (base_edges idx)\<^sup>+}"
          using edge by (auto intro: trancl_into_trancl2)
      qed
      have "(k, k) \<notin> (base_edges idx)\<^sup>+" using ac by (simp add: acyclic_def)
      with sub have "k \<notin> style_id ` set ch'" by auto
      then have "distinct (map style_id (s # ch'))"
        using ch'(3) id_s by simp
      moreover have "style_id ` set (s # ch') \<subseteq> insert k {x. (k, x) \<in> (base_edges idx)\<^sup>+}"
        using sub id_s by auto
      ultimately show ?thesis using fb by blast
    qed
  qed
qed

lemma find_bases_hd:
  "find_bases idx (Some s) [] = Some ch \<Longrightarrow> ch \<noteq> [] \<and> hd ch = s"
  by (auto simp: find_bases_unfold)

lemma set_bases_total:
  assumes step: "\<And>k s. (k, s) \<in> set l \<Longrightarrow>
      \<exists>ch. find_bases idx (Some s) [] = Some ch \<and> distinct (map style_id ch)"
  shows "\<exists>l'. set_bases idx l = Some l' \<and>
      (\<forall>ks \<in> set l'. distinct (bases (snd ks)) \<and> bases (snd ks) \<noteq> [])"
  using step
proof (induction l)
  case Nil
  then show ?case by simp
next
  case (Cons a l)
  obtain k s where a: "a = (k, s)" by (cases a)
  from Cons.prems[of k s] a obtain ch where
    ch: "find_bases idx (Some s) [] = Some ch" "distinct (map style_id ch)" by auto
  have "ch \<noteq> []" using find_bases_hd[OF ch(1)] by simp
  moreover from Cons.IH Cons.prems obtain l' where
    "set_bases idx l = Some l'"
    "\<forall>ks \<in> set l'. distinct (bases (snd ks)) \<and> bases (snd ks) \<noteq> []"
    by auto
  ultimately show ?case using ch a by auto
qed

lemma find_bases_closed_cycle:
  assumes closed: "\<And>s. s \<in> S \<Longrightarrow> \<exists>s2 \<in> S. styles_get idx (base_style s) = Some s2"
    and "s \<in> S"
  shows "find_bases idx (Some s) acc = None"
proof (rule ccontr)
  assume "find_bases idx (Some s) acc \<noteq> None"
  then obtain r where r: "find_bases idx (Some s) acc = Some r" by auto
  let ?P = "\<lambda>i b (a :: style list) (y :: style list). i = idx \<longrightarrow> b \<notin> Some ` S"
  have "?P idx (Some s) acc r"
  proof (rule find_bases.raw_induct[where P = ?P, OF _ r])
    fix f i b a y
    assume IH: "\<And>i b a y. f i b a = Some y \<Longrightarrow> ?P i b a y"
      and eq: "(case b of None \<Rightarrow> Some a
                | Some s \<Rightarrow> f i (styles_get i (base_style s)) (a @ [s])) = Some y"
    show "?P i b a y"
    proof (intro impI notI)
      assume i: "i = idx" and "b \<in> Some ` S"
      then obtain s' where s': "b = Some s'" "s' \<in> S" by auto
      from closed[OF s'(2)] obtain s2 where s2: "s2 \<in> S" "styles_get idx (base_style s') = Some s2"
        by blast
      from eq s' i s2 have "f idx (Some s2) (a @ [s']) = Some y" by simp
      from IH[OF this] s2(1) show False by simp
    qed
  qed
  with assms(2) show False by simp
qed

lemma inherited_Nil: "inherited m [] d = d"
  by (simp add: inherited_def)

lemma inherited_Cons:
  "inherited m (b # bs) d = (case map_of m b of Some v \<Rightarrow> v | None \<Rightarrow> inherited m bs d)"
  by (simp add: inherited_def split: option.splits)

lemma set_bases_lookup:
  "set_bases idx l = Some l' \<Longrightarrow> map_of l k = Some s \<Longrightarrow>
     \<exists>ch. find_bases idx (Some s) [] = Some ch \<and> map_of l' k = Some (s\<lparr>bases := map style_id ch\<rparr>)"
proof (induction l arbitrary: l')
  case Nil
  then show ?case by simp
next
  case (Cons a l)
  obtain k0 s0 where a: "a = (k0, s0)" by (cases a)
  from Cons.prems(1) a obtain ch0 rest' where
    ch0: "find_bases idx (Some s0) [] = Some ch0"
    and rest: "set_bases idx l = Some rest'"
    and l': "l' = (k0, s0\<lparr>bases := map style_id ch0\<rparr>) # rest'"
    by (auto split: option.splits)
  show ?case
  proof (cases "k0 = k")
    case True
    with Cons.prems(2) a have "s0 = s" by simp
    with ch0 l' True show ?thesis by simp
  next
    case False
    with Cons.prems(2) a have "map_of l k = Some s" by simp
    from Cons.IH[OF rest this] False l' show ?thesis by simp
  qed
qed

lemma set_bases_member:
  "set_bases idx l = Some l' \<Longrightarrow> (k, s') \<in> set l' \<Longrightarrow>
     \<exists>s ch. (k, s) \<in> set l \<and> find_bases idx (Some s) [] = Some ch
          \<and> s' = s\<lparr>bases := map style_id ch\<rparr>"
proof (induction l arbitrary: l')
  case Nil
  then show ?case by simp
next
  case (Cons a l)
  obtain k0 s0 where a: "a = (k0, s0)" by (cases a)
  from Cons.prems(1) a obtain ch0 rest' where
    ch0: "find_bases idx (Some s0) [] = Some ch0"
    and rest: "set_bases idx l = Some rest'"
    and l': "l' = (k0, s0\<lparr>bases := map style_id ch0\<rparr>) # rest'"
    by (auto split: option.splits)
  from Cons.prems(2) l' consider "(k, s') = (k0, s0\<lparr>bases := map style_id ch0\<rparr>)"
    | "(k, s') \<in> set rest'" by auto
  then show ?case
  proof cases
    case 1
    with ch0 a show ?thesis by auto
  next
    case 2
    from Cons.IH[OF rest 2] show ?thesis by auto
  qed
qed

text \<open>The chains computed from one index are closed under taking the tail: the tail of
  a chain is the chain of its first style.\<close>

lemma bases_closed:
  assumes key: "\<And>k s. (k, s) \<in> set idx \<Longrightarrow> style_id s = k"
    and dist: "distinct (map fst idx)"
    and sb: "set_bases idx idx = Some idx'"
    and mem: "(k, s') \<in> set idx'"
  shows "\<exists>rest. bases s' = k # rest \<and>
           (rest = [] \<or> (\<exists>s2. (hd rest, s2) \<in> set idx' \<and> bases s2 = rest))"
proof -
  from set_bases_member[OF sb mem] obtain s ch where
    s: "(k, s) \<in> set idx" "find_bases idx (Some s) [] = Some ch"
       "s' = s\<lparr>bases := map style_id ch\<rparr>" by blast
  from s(2) obtain ch' where ch': "ch = s # ch'"
    "find_bases idx (styles_get idx (base_style s)) [] = Some ch'"
    by (auto simp: find_bases_unfold)
  have id_s: "style_id s = k" using key s(1) .
  have b: "bases s' = k # map style_id ch'" using s(3) ch'(1) id_s by simp
  show ?thesis
  proof (cases "styles_get idx (base_style s)")
    case None
    with ch'(2) have "ch' = []" by (simp add: find_bases_None)
    with b show ?thesis by simp
  next
    case (Some s2)
    then obtain bk where bk: "base_style s = Some bk" "map_of idx bk = Some s2"
      by (auto simp: styles_get_def split: option.splits)
    have id_s2: "style_id s2 = bk" using key map_of_SomeD[OF bk(2)] .
    from ch'(2) Some have fb2: "find_bases idx (Some s2) [] = Some ch'" by simp
    from set_bases_lookup[OF sb bk(2)] fb2
    have m: "map_of idx' bk = Some (s2\<lparr>bases := map style_id ch'\<rparr>)" by simp
    from fb2 have "ch' \<noteq> [] \<and> hd ch' = s2" by (rule find_bases_hd)
    then have "hd (map style_id ch') = bk" using id_s2 by (simp add: hd_map)
    with m b show ?thesis by (auto dest: map_of_SomeD)
  qed
qed

lemma inherited_stable:
  assumes inv: "\<And>x. map_of mw x =
       (case map_of mv x of
          Some y \<Rightarrow> Some y
        | None \<Rightarrow> (case map_of l0 x of
                     None \<Rightarrow> None
                   | Some s \<Rightarrow> Some (inherited mv (bases s) d)))"
    and closed: "\<And>k s. (k, s) \<in> set idx' \<Longrightarrow>
       \<exists>rest. bases s = k # rest \<and>
         (rest = [] \<or> (\<exists>s2. (hd rest, s2) \<in> set idx' \<and> bases s2 = rest))"
    and sub: "set l0 \<subseteq> set idx'"
    and dist: "distinct (map fst idx')"
  shows "c = [] \<or> (\<exists>s. (hd c, s) \<in> set idx' \<and> bases s = c) \<Longrightarrow>
         inherited mw c d = inherited mv c d"
proof (induction c)
  case Nil
  show ?case by (simp add: inherited_Nil)
next
  case (Cons b rest)
  from Cons.prems obtain s where s: "(b, s) \<in> set idx'" "bases s = b # rest" by auto
  from closed[OF s(1)] s(2)
  have rest: "rest = [] \<or> (\<exists>s2. (hd rest, s2) \<in> set idx' \<and> bases s2 = rest)" by auto
  have IH: "inherited mw rest d = inherited mv rest d" by (rule Cons.IH[OF rest])
  show ?case
  proof (cases "map_of mv b")
    case (Some y)
    with inv[of b] show ?thesis by (simp add: inherited_Cons)
  next
    case None
    show ?thesis
    proof (cases "map_of l0 b")
      case None
      with \<open>map_of mv b = None\<close> inv[of b] IH show ?thesis by (simp add: inherited_Cons)
    next
      case (Some s0)
      then have "(b, s0) \<in> set idx'" using sub by (auto dest: map_of_SomeD)
      with s(1) dist have "s0 = s" by (meson eq_key_imp_eq_value)
      with Some \<open>map_of mv b = None\<close> inv[of b] s(2)
      show ?thesis by (simp add: inherited_Cons)
    qed
  qed
qed

lemma fill_fold_inv:
  assumes closed: "\<And>k s. (k, s) \<in> set idx' \<Longrightarrow>
       \<exists>rest. bases s = k # rest \<and>
         (rest = [] \<or> (\<exists>s2. (hd rest, s2) \<in> set idx' \<and> bases s2 = rest))"
    and dist: "distinct (map fst idx')"
  shows "set l \<subseteq> set idx' \<Longrightarrow> distinct (map fst l) \<Longrightarrow>
     def_style (foldl fill_style v l) = def_style v \<and>
     (\<forall>x. map_of (styles (foldl fill_style v l)) x =
        (case map_of (styles v) x of
           Some y \<Rightarrow> Some y
         | None \<Rightarrow> (case map_of l x of
                      None \<Rightarrow> None
                    | Some s \<Rightarrow> Some (inherited (styles v) (bases s) (def_style v)))))"
proof (induction l rule: rev_induct)
  case Nil
  show ?case by (simp split: option.splits)
next
  case (snoc a l0)
  obtain k s where a: "a = (k, s)" by (cases a)
  let ?w = "foldl fill_style v l0"
  from snoc.prems have sub0: "set l0 \<subseteq> set idx'" and d0: "distinct (map fst l0)"
    and knew: "k \<notin> fst ` set l0" and ks: "(k, s) \<in> set idx'"
    using a by auto
  from snoc.IH[OF sub0 d0] have
    dw: "def_style ?w = def_style v" and
    inv: "\<And>x. map_of (styles ?w) x =
        (case map_of (styles v) x of
           Some y \<Rightarrow> Some y
         | None \<Rightarrow> (case map_of l0 x of
                      None \<Rightarrow> None
                    | Some s \<Rightarrow> Some (inherited (styles v) (bases s) (def_style v))))"
    by auto
  have l0k: "map_of l0 k = None" using knew by (simp add: map_of_eq_None_iff)
  have wk: "map_of (styles ?w) k = map_of (styles v) k"
    using inv[of k] l0k by (simp split: option.splits)
  have app: "\<And>x. map_of (l0 @ [(k, s)]) x =
        (case map_of l0 x of Some t \<Rightarrow> Some t | None \<Rightarrow> if x = k then Some s else None)"
    by (simp add: map_add_def split: option.splits)
  have step: "foldl fill_style v (l0 @ [a]) = fill_style ?w (k, s)" using a by simp
  have app': "\<And>x. map_of (l0 @ [a]) x =
        (case map_of l0 x of Some t \<Rightarrow> Some t | None \<Rightarrow> if x = k then Some s else None)"
    using app a by simp
  show ?case
  proof (cases "map_of (styles v) k")
    case (Some y)
    then have "k \<in> fst ` set (styles ?w)"
      using wk by (metis map_of_eq_None_iff option.distinct(1))
    then have same: "fill_style ?w (k, s) = ?w" by (simp add: fill_style_def)
    show ?thesis
      unfolding step same app' using dw inv Some l0k
      by (auto split: option.splits)
  next
    case None
    with wk have "map_of (styles ?w) k = None" by simp
    then have notin: "k \<notin> fst ` set (styles ?w)"
      by (simp only: map_of_eq_None_iff not_False_eq_True)
    have hdk: "\<exists>s0. (hd (bases s), s0) \<in> set idx' \<and> bases s0 = bases s"
      using closed[OF ks] ks by auto
    have stable: "inherited (styles ?w) (bases s) (def_style v)
                = inherited (styles v) (bases s) (def_style v)"
      by (rule inherited_stable[where ?l0.0 = l0 and idx' = idx', OF inv closed sub0 dist])
         (use hdk in auto)
    have upd: "fill_style ?w (k, s) =
       ?w\<lparr>styles := AList.update k (inherited (styles ?w) (bases s) (def_style ?w)) (styles ?w)\<rparr>"
      using notin by (simp add: fill_style_def inherited_def split: option.splits)
    show ?thesis
      unfolding step upd app' using dw inv None l0k stable
      by (auto simp: AList.update_conv' split: option.splits)
  qed
qed

lemmas ex_defs = example_style_def example_folder_def example_version_def example_item_def
  example_data_def Style_init_def

lemma ex_eval:
  "setup_style_tree
     (example_data [example_style ''A'' None, example_style ''B'' (Some ''A'')]
        [example_item ''widget''
           [example_version [(''A'', FolderData (example_folder ''1''))]
              (FolderData (example_folder ''1''))]
           (FolderData (example_folder ''1''))])
   = Some (example_data
        [example_style ''A'' None\<lparr>bases := [''A'']\<rparr>,
         example_style ''B'' (Some ''A'')\<lparr>bases := [''B'', ''A'']\<rparr>]
        [example_item ''widget''
           [example_version [(''A'', FolderData (example_folder ''1'')),
                             (''B'', FolderData (example_folder ''1''))]
              (FolderData (example_folder ''1''))]
           (FolderData (example_folder ''1''))])"
  by (simp add: setup_style_tree_def style_index_def styles_get_def find_bases_None
      find_bases_Some fill_item_def fill_version_def fill_style_def ex_defs)

text \<open>
  Claim C1. When \<open>setup_style_tree\<close> returns, every version of every item has an entry
  in its \<open>styles\<close> mapping for every id of the style index.
\<close>

theorem setup_style_tree_styles_complete:
  assumes "setup_style_tree d = Some d'"
    and "it \<in> set (data_Item d')"
    and "v \<in> set (versions it)"
    and "k \<in> fst ` set (style_index (data_Style d))"
  shows "map_of (styles v) k \<noteq> None"
proof -
  from assms(1) obtain idx' where
    sb: "set_bases (style_index (data_Style d)) (style_index (data_Style d)) = Some idx'"
    and items: "data_Item d' = map (fill_item idx') (data_Item d)"
    by (auto simp: setup_style_tree_def Let_def split: option.splits)
  from assms(2) items obtain it0 where it: "it = fill_item idx' it0" by auto
  with assms(3) obtain v0 where v: "v = fill_version idx' v0"
    by (auto simp: fill_item_def)
  have "fst ` set idx' = fst ` set (style_index (data_Style d))"
    using set_bases_keys[OF sb] by (metis set_map)
  with assms(4) have "k \<in> fst ` set (styles v)"
    by (simp add: v fill_version_keys)
  then show ?thesis
    by (simp add: map_of_eq_None_iff)
qed

theorem setup_style_tree_styles_complete_witness:
  "setup_style_tree
     (example_data [example_style ''A'' None, example_style ''B'' (Some ''A'')]
        [example_item ''widget''
           [example_version [(''A'', FolderData (example_folder ''1''))]
              (FolderData (example_folder ''1''))]
           (FolderData (example_folder ''1''))])
   = Some (example_data
        [example_style ''A'' None\<lparr>bases := [''A'']\<rparr>,
         example_style ''B'' (Some ''A'')\<lparr>bases := [''B'', ''A'']\<rparr>]
        [example_item ''widget''
           [example_version [(''A'', FolderData (example_folder ''1'')),
                             (''B'', FolderData (example_folder ''1''))]
              (FolderData (example_folder ''1''))]
           (FolderData (example_folder ''1''))])
   \<and> map_of (styles (example_version [(''A'', FolderData (example_folder ''1'')),
                             (''B'', FolderData (example_folder ''1''))]
              (FolderData (example_folder ''1'')))) ''B'' \<noteq> None"
proof -
  let ?v = "example_version [(''A'', FolderData (example_folder ''1'')),
                             (''B'', FolderData (example_folder ''1''))]
              (FolderData (example_folder ''1''))"
  let ?it = "example_item ''widget'' [?v] (FolderData (example_folder ''1''))"
  let ?ss = "[example_style ''A'' None, example_style ''B'' (Some ''A'')]"
  have 1: "?it \<in> set (data_Item (example_data
        [example_style ''A'' None\<lparr>bases := [''A'']\<rparr>,
         example_style ''B'' (Some ''A'')\<lparr>bases := [''B'', ''A'']\<rparr>] [?it]))"
    by (simp add: example_data_def)
  have 2: "?v \<in> set (versions ?it)" by (simp add: example_item_def)
  have 3: "''B'' \<in> fst ` set (style_index (data_Style (example_data ?ss
        [example_item ''widget''
           [example_version [(''A'', FolderData (example_folder ''1''))]
              (FolderData (example_folder ''1''))]
           (FolderData (example_folder ''1''))])))"
    by (simp add: example_data_def style_index_def example_style_def Style_init_def)
  have "map_of (styles ?v) ''B'' \<noteq> None"
    by (rule setup_style_tree_styles_complete[OF ex_eval 1 2 3])
  with ex_eval show ?thesis by simp
qed


text \<open>What the resolution does to a version whenever it returns.\<close>

lemma inherits_when_returned:
  assumes run: "setup_style_tree d = Some d'"
    and i: "i < length (data_Item d)"
    and j: "j < length (versions (data_Item d ! i))"
    and known: "(k, s) \<in> set (style_index (data_Style d))"
    and absent: "map_of (styles (versions (data_Item d ! i) ! j)) k = None"
  shows "\<exists>chain. find_bases (style_index (data_Style d)) (Some s) [] = Some chain \<and>
      map_of (styles (versions (data_Item d' ! i) ! j)) k =
        Some (inherited (styles (versions (data_Item d ! i) ! j)) (map style_id chain)
                (def_style (versions (data_Item d ! i) ! j))) \<and>
      (\<forall>a sa x. base_style s = Some a \<and> map_of (style_index (data_Style d)) a = Some sa \<and>
           map_of (styles (versions (data_Item d ! i) ! j)) a = Some x \<longrightarrow>
         map_of (styles (versions (data_Item d' ! i) ! j)) k = Some x)"
proof -
  let ?idx = "style_index (data_Style d)"
  let ?v = "versions (data_Item d ! i) ! j"
  from run obtain idx' where sb: "set_bases ?idx ?idx = Some idx'"
    and items: "data_Item d' = map (fill_item idx') (data_Item d)"
    by (auto simp: setup_style_tree_def Let_def split: option.splits)
  have v': "versions (data_Item d' ! i) ! j = foldl fill_style ?v idx'"
    using items i j by (simp add: fill_item_def fill_version_def)
  have key: "\<And>k s. (k, s) \<in> set ?idx \<Longrightarrow> style_id s = k" by (rule style_index_key)
  have dist: "distinct (map fst ?idx)" by (rule style_index_distinct)
  have dist': "distinct (map fst idx')" using set_bases_keys[OF sb] dist by simp
  have closed: "\<And>k s. (k, s) \<in> set idx' \<Longrightarrow>
       \<exists>rest. bases s = k # rest \<and>
         (rest = [] \<or> (\<exists>s2. (hd rest, s2) \<in> set idx' \<and> bases s2 = rest))"
    by (rule bases_closed[OF key dist sb])
  have inv: "\<And>x. map_of (styles (foldl fill_style ?v idx')) x =
        (case map_of (styles ?v) x of
           Some y \<Rightarrow> Some y
         | None \<Rightarrow> (case map_of idx' x of
                      None \<Rightarrow> None
                    | Some s \<Rightarrow> Some (inherited (styles ?v) (bases s) (def_style ?v))))"
    using fill_fold_inv[OF closed dist' subset_refl dist', of ?v] by blast
  have mk: "map_of ?idx k = Some s" using known dist by simp
  from set_bases_lookup[OF sb mk] obtain chain where
    chain: "find_bases ?idx (Some s) [] = Some chain"
    and mk': "map_of idx' k = Some (s\<lparr>bases := map style_id chain\<rparr>)" by blast
  have res: "map_of (styles (versions (data_Item d' ! i) ! j)) k =
        Some (inherited (styles ?v) (map style_id chain) (def_style ?v))"
    unfolding v' using inv[of k] absent mk' by simp
  have part: "map_of (styles (versions (data_Item d' ! i) ! j)) k = Some x"
    if a: "base_style s = Some a" "map_of ?idx a = Some sa" "map_of (styles ?v) a = Some x"
    for a sa x
  proof -
    from chain obtain ch' where ch': "chain = s # ch'"
      "find_bases ?idx (styles_get ?idx (base_style s)) [] = Some ch'"
      by (auto simp: find_bases_unfold)
    from ch'(2) a have "find_bases ?idx (Some sa) [] = Some ch'" by (simp add: styles_get_def)
    then obtain ch2 where ch2: "ch' = sa # ch2" by (auto simp: find_bases_unfold)
    have "style_id sa = a" using key map_of_SomeD[OF a(2)] .
    moreover have "style_id s = k" using key known .
    ultimately have "inherited (styles ?v) (map style_id chain) (def_style ?v) = x"
      using ch' ch2 absent a(3) by (simp add: inherited_Cons)
    with res show ?thesis by simp
  qed
  from chain res part show ?thesis by blast
qed

text \<open>On an index without a base cycle the resolution returns.\<close>

lemma setup_style_tree_returns:
  assumes "acyclic (base_edges (style_index (data_Style d)))"
  shows "\<exists>d'. setup_style_tree d = Some d'"
proof -
  let ?idx = "style_index (data_Style d)"
  have "\<exists>l'. set_bases ?idx ?idx = Some l' \<and>
      (\<forall>ks \<in> set l'. distinct (bases (snd ks)) \<and> bases (snd ks) \<noteq> [])"
  proof (rule set_bases_total)
    fix k s assume ks: "(k, s) \<in> set ?idx"
    have mo: "map_of ?idx k = Some s" using ks style_index_distinct by simp
    have key: "\<And>k s. (k, s) \<in> set ?idx \<Longrightarrow> style_id s = k" by (rule style_index_key)
    from chain_of_acyclic[OF assms key mo]
    show "\<exists>ch. find_bases ?idx (Some s) [] = Some ch \<and> distinct (map style_id ch)" by blast
  qed
  then obtain idx' where "set_bases ?idx ?idx = Some idx'" by blast
  then show ?thesis by (simp add: setup_style_tree_def)
qed

text \<open>
  Claim C2, as amended. Let the base-style graph of the style index have no cycle, and
  let a style of the index, with id \<open>k\<close>, have no entry in the \<open>styles\<close> mapping of an
  item version beforehand. Then \<open>setup_style_tree\<close> returns, the base chain of the style
  exists, and afterwards the entry of \<open>k\<close> in that version is the data of the first style
  of the chain (nearest first) that had an entry in the mapping beforehand, or the
  version's \<open>def_style\<close> if none had. In particular, if the style declares the base
  \<open>a\<close>, \<open>a\<close> is itself a style of the index and the version had the data \<open>x\<close> for \<open>a\<close>,
  the entry of \<open>k\<close> is \<open>x\<close>.
\<close>

theorem setup_style_tree_inherits:
  assumes ac: "acyclic (base_edges (style_index (data_Style d)))"
    and i: "i < length (data_Item d)"
    and j: "j < length (versions (data_Item d ! i))"
    and known: "(k, s) \<in> set (style_index (data_Style d))"
    and absent: "map_of (styles (versions (data_Item d ! i) ! j)) k = None"
  shows "\<exists>d' chain. setup_style_tree d = Some d' \<and>
      find_bases (style_index (data_Style d)) (Some s) [] = Some chain \<and>
      map_of (styles (versions (data_Item d' ! i) ! j)) k =
        Some (inherited (styles (versions (data_Item d ! i) ! j)) (map style_id chain)
                (def_style (versions (data_Item d ! i) ! j))) \<and>
      (\<forall>a sa x. base_style s = Some a \<and> map_of (style_index (data_Style d)) a = Some sa \<and>
           map_of (styles (versions (data_Item d ! i) ! j)) a = Some x \<longrightarrow>
         map_of (styles (versions (data_Item d' ! i) ! j)) k = Some x)"
proof -
  from setup_style_tree_returns[OF ac] obtain d' where run: "setup_style_tree d = Some d'" ..
  from inherits_when_returned[OF run i j known absent] run show ?thesis by blast
qed

theorem setup_style_tree_inherits_witness:
  "acyclic (base_edges (style_index [example_style ''A'' None, example_style ''B'' (Some ''A'')]))
   \<and> setup_style_tree
     (example_data [example_style ''A'' None, example_style ''B'' (Some ''A'')]
        [example_item ''widget''
           [example_version [(''A'', FolderData (example_folder ''1''))]
              (FolderData (example_folder ''9''))]
           (FolderData (example_folder ''9''))])
   = Some (example_data
        [example_style ''A'' None\<lparr>bases := [''A'']\<rparr>,
         example_style ''B'' (Some ''A'')\<lparr>bases := [''B'', ''A'']\<rparr>]
        [example_item ''widget''
           [example_version [(''A'', FolderData (example_folder ''1'')),
                             (''B'', FolderData (example_folder ''1''))]
              (FolderData (example_folder ''9''))]
           (FolderData (example_folder ''9''))])
   \<and> map_of (styles (versions (data_Item (example_data
        [example_style ''A'' None\<lparr>bases := [''A'']\<rparr>,
         example_style ''B'' (Some ''A'')\<lparr>bases := [''B'', ''A'']\<rparr>]
        [example_item ''widget''
           [example_version [(''A'', FolderData (example_folder ''1'')),
                             (''B'', FolderData (example_folder ''1''))]
              (FolderData (example_folder ''9''))]
           (FolderData (example_folder ''9''))]) ! 0) ! 0)) ''B''
     = Some (FolderData (example_folder ''1''))"
proof -
  let ?ss = "[example_style ''A'' None, example_style ''B'' (Some ''A'')]"
  let ?v = "example_version [(''A'', FolderData (example_folder ''1''))]
              (FolderData (example_folder ''9''))"
  let ?d = "example_data ?ss
        [example_item ''widget'' [?v] (FolderData (example_folder ''9''))]"
  let ?d' = "example_data
        [example_style ''A'' None\<lparr>bases := [''A'']\<rparr>,
         example_style ''B'' (Some ''A'')\<lparr>bases := [''B'', ''A'']\<rparr>]
        [example_item ''widget''
           [example_version [(''A'', FolderData (example_folder ''1'')),
                             (''B'', FolderData (example_folder ''1''))]
              (FolderData (example_folder ''9''))]
           (FolderData (example_folder ''9''))]"
  have e: "base_edges (style_index ?ss) = {(''B'', ''A'')}"
    by (simp add: base_edges_def style_index_def styles_get_def example_style_def Style_init_def)
  have ac0: "acyclic (base_edges (style_index ?ss))"
  proof -
    have "acyclic ({} :: (string \<times> string) set)" by (simp add: acyclic_def)
    then show ?thesis unfolding e by simp
  qed
  then have ac: "acyclic (base_edges (style_index (data_Style ?d)))"
    by (simp add: example_data_def)
  have run: "setup_style_tree ?d = Some ?d'"
    by (simp add: setup_style_tree_def style_index_def styles_get_def find_bases_None
        find_bases_Some fill_item_def fill_version_def fill_style_def ex_defs)
  have i: "0 < length (data_Item ?d)" by (simp add: example_data_def)
  have j: "0 < length (versions (data_Item ?d ! 0))"
    by (simp add: example_data_def example_item_def)
  have known: "(''B'', example_style ''B'' (Some ''A'')) \<in> set (style_index (data_Style ?d))"
    by (simp add: example_data_def style_index_def example_style_def Style_init_def)
  have absent: "map_of (styles (versions (data_Item ?d ! 0) ! 0)) ''B'' = None"
    by (simp add: example_data_def example_item_def example_version_def)
  from setup_style_tree_inherits[OF ac i j known absent]
  obtain d'' where
    r: "setup_style_tree ?d = Some d''"
    and p: "\<And>a sa x. base_style (example_style ''B'' (Some ''A'')) = Some a \<and>
           map_of (style_index (data_Style ?d)) a = Some sa \<and>
           map_of (styles (versions (data_Item ?d ! 0) ! 0)) a = Some x \<Longrightarrow>
         map_of (styles (versions (data_Item d'' ! 0) ! 0)) ''B'' = Some x"
    by blast
  from r run have d'': "d'' = ?d'" by simp
  have "base_style (example_style ''B'' (Some ''A'')) = Some ''A'' \<and>
      map_of (style_index (data_Style ?d)) ''A'' = Some (example_style ''A'' None) \<and>
      map_of (styles (versions (data_Item ?d ! 0) ! 0)) ''A'' = Some (FolderData (example_folder ''1''))"
    by (simp add: example_data_def example_item_def example_version_def style_index_def
        example_style_def Style_init_def)
  from p[OF this] have "map_of (styles (versions (data_Item ?d' ! 0) ! 0)) ''B''
     = Some (FolderData (example_folder ''1''))"
    unfolding d'' .
  with ac0 run show ?thesis by simp
qed

text \<open>
  Claim C2 as stated fails: style \<open>B\<close> declares the base \<open>X\<close>, which is no style of
  the index; the version has data for \<open>X\<close> and none for \<open>B\<close>. The chain of \<open>B\<close> is
  \<open>B\<close> alone, and \<open>B\<close> receives the version's \<open>def_style\<close>, not the data of \<open>X\<close>.
\<close>

theorem unknown_base_counterexample:
  "setup_style_tree
     (example_data [example_style ''B'' (Some ''X'')]
        [example_item ''widget''
           [example_version [(''Q'', FolderData (example_folder ''1'')),
                             (''X'', FolderData (example_folder ''2''))]
              (FolderData (example_folder ''1''))]
           (FolderData (example_folder ''1''))])
   = Some (example_data
        [example_style ''B'' (Some ''X'')\<lparr>bases := [''B'']\<rparr>]
        [example_item ''widget''
           [example_version [(''Q'', FolderData (example_folder ''1'')),
                             (''X'', FolderData (example_folder ''2'')),
                             (''B'', FolderData (example_folder ''1''))]
              (FolderData (example_folder ''1''))]
           (FolderData (example_folder ''1''))])
   \<and> base_style (example_style ''B'' (Some ''X'')) = Some ''X''
   \<and> FolderData (example_folder ''1'') \<noteq> FolderData (example_folder ''2'')"
  by (simp add: setup_style_tree_def style_index_def styles_get_def find_bases_None
      find_bases_Some fill_item_def fill_version_def fill_style_def ex_defs)

text \<open>
  Claim C3, as amended. If the base-style graph of the style index has no cycle, the base
  chains of all styles are computed (the loop returns for every style), every chain is
  non-empty and no id occurs twice in it.
\<close>

theorem set_bases_acyclic_terminates:
  assumes "acyclic (base_edges (style_index ss))"
  shows "\<exists>idx'. set_bases (style_index ss) (style_index ss) = Some idx' \<and>
      (\<forall>ks \<in> set idx'. distinct (bases (snd ks)) \<and> bases (snd ks) \<noteq> [])"
proof (rule set_bases_total)
  fix k s
  assume ks: "(k, s) \<in> set (style_index ss)"
  then have mo: "map_of (style_index ss) k = Some s"
    using style_index_distinct by simp
  have key: "\<And>k s. (k, s) \<in> set (style_index ss) \<Longrightarrow> style_id s = k"
    by (rule style_index_key)
  from chain_of_acyclic[OF assms key mo]
  show "\<exists>ch. find_bases (style_index ss) (Some s) [] = Some ch \<and> distinct (map style_id ch)"
    by blast
qed

theorem set_bases_acyclic_terminates_witness:
  "acyclic (base_edges (style_index [example_style ''A'' None, example_style ''B'' (Some ''A'')]))
   \<and> set_bases (style_index [example_style ''A'' None, example_style ''B'' (Some ''A'')])
       (style_index [example_style ''A'' None, example_style ''B'' (Some ''A'')])
     = Some [(''A'', example_style ''A'' None\<lparr>bases := [''A'']\<rparr>),
             (''B'', example_style ''B'' (Some ''A'')\<lparr>bases := [''B'', ''A'']\<rparr>)]"
proof -
  let ?ss = "[example_style ''A'' None, example_style ''B'' (Some ''A'')]"
  have e: "base_edges (style_index ?ss) = {(''B'', ''A'')}"
    by (simp add: base_edges_def style_index_def styles_get_def example_style_def Style_init_def)
  have ac: "acyclic (base_edges (style_index ?ss))"
  proof -
    have "acyclic ({} :: (string \<times> string) set)" by (simp add: acyclic_def)
    then show ?thesis unfolding e by simp
  qed
  from set_bases_acyclic_terminates[OF ac] obtain idx' where
    "set_bases (style_index ?ss) (style_index ?ss) = Some idx'" by blast
  moreover have "set_bases (style_index ?ss) (style_index ?ss)
     = Some [(''A'', example_style ''A'' None\<lparr>bases := [''A'']\<rparr>),
             (''B'', example_style ''B'' (Some ''A'')\<lparr>bases := [''B'', ''A'']\<rparr>)]"
    by (simp add: style_index_def styles_get_def find_bases_None find_bases_Some
        example_style_def Style_init_def)
  ultimately show ?thesis using ac by simp
qed

text \<open>
  Claim C3 as stated fails: for two styles that name each other as base, the
  \<open>while\<close> loop never returns for the first of them, and so neither does
  \<open>setup_style_tree\<close>.
\<close>

theorem base_cycle_counterexample:
  "find_bases (style_index [example_style ''A'' (Some ''B''), example_style ''B'' (Some ''A'')])
     (Some (example_style ''A'' (Some ''B''))) [] = None
   \<and> setup_style_tree
       (example_data [example_style ''A'' (Some ''B''), example_style ''B'' (Some ''A'')] []) = None"
proof -
  let ?A = "example_style ''A'' (Some ''B'')"
  let ?B = "example_style ''B'' (Some ''A'')"
  let ?idx = "style_index [?A, ?B]"
  have idx: "?idx = [(''A'', ?A), (''B'', ?B)]"
    by (simp add: style_index_def example_style_def Style_init_def)
  have closed: "\<And>s. s \<in> {?A, ?B} \<Longrightarrow> \<exists>s2 \<in> {?A, ?B}. styles_get ?idx (base_style s) = Some s2"
    unfolding idx by (auto simp: styles_get_def example_style_def Style_init_def)
  have div: "find_bases ?idx (Some ?A) [] = None"
    by (rule find_bases_closed_cycle[where S = "{?A, ?B}", OF closed]) simp_all
  have "set_bases ?idx ?idx = None"
    using div by (subst (2) idx) simp
  then have "setup_style_tree (example_data [?A, ?B] []) = None"
    by (simp add: setup_style_tree_def example_data_def)
  with div show ?thesis by simp
qed

section \<open>Properties of definition collection\<close>

lemmas prop_defs = get_item_def get_item_def_def get_item_opt_def find_all_def find_key_def
  find_key_children_def find_key_def_def has_children_def namelist_def zip_open_def

lemmas ascii_defs = ascii_py_def ascii_strip_def ascii_space_def ascii_casefold_def
  sep_values_def desc_parse_def get_selitem_data_def







lemma update_new_key: "k \<notin> fst ` set al \<Longrightarrow> AList.update k v al = al @ [(k, v)]"
  by (induction al) auto

text \<open>
  Claim C4, as amended. A definition whose \<open>overrideOrig\<close> flag is \<open>"1"\<close> is handled
  as an override only when an original for its id is already stored in its category:
  then, if the step returns, it counts the definition and leaves the originals, the
  printed lines and the package registry as they were; and the step does return when
  the category's override store has no key for the id, as is the case throughout
  \<open>loadAll\<close>. When no original for the id is
  stored yet, the definition is itself stored as the original of that id, with its
  archive, node, package id and display name, whatever its flag.
\<close>

theorem override_needs_original:
  assumes "get_item object ''id'' = Inr ident"
    and "get_item_def object ''overrideOrig'' ''0'' = ''1''"
  shows "(ident \<notin> fst ` set (obj g ct)
           \<longrightarrow> collect zipf pak dn ct (n, g) object =
                 Inr (n + 1, g\<lparr>obj := (obj g)(ct := obj g ct @ [(ident, zipf, object, pak, dn)])\<rparr>))
       \<and> (ident \<in> fst ` set (obj g ct) \<and> collect zipf pak dn ct (n, g) object = Inr (n', g')
           \<longrightarrow> n' = n + 1 \<and> obj g' = obj g \<and> printed g' = printed g \<and> packages g' = packages g)
       \<and> (ident \<in> fst ` set (obj g ct) \<and> \<not> in_over (obj_override g ct) ident
           \<longrightarrow> (\<exists>g''. collect zipf pak dn ct (n, g) object = Inr (n + 1, g'')))"
proof -
  have 1: "collect zipf pak dn ct (n, g) object =
                 Inr (n + 1, g\<lparr>obj := (obj g)(ct := obj g ct @ [(ident, zipf, object, pak, dn)])\<rparr>)"
    if "ident \<notin> fst ` set (obj g ct)"
    using that assms by (simp add: collect_def update_new_key)
  have 2: "n' = n + 1 \<and> obj g' = obj g \<and> printed g' = printed g \<and> packages g' = packages g"
    if "ident \<in> fst ` set (obj g ct)" "collect zipf pak dn ct (n, g) object = Inr (n', g')"
    using that assms by (auto simp: collect_def split: if_splits sum.splits)
  have 3: "\<exists>g''. collect zipf pak dn ct (n, g) object = Inr (n + 1, g'')"
    if "ident \<in> fst ` set (obj g ct)" "\<not> in_over (obj_override g ct) ident"
    using that assms by (simp add: collect_def)
  from 1 2 3 show ?thesis by blast
qed

theorem override_needs_original_witness:
  "get_item (Property ''Goo'' [] [Property ''id'' ''g'' [], Property ''overrideOrig'' ''1'' []]) ''id''
     = Inr ''g''
   \<and> get_item_def (Property ''Goo'' [] [Property ''id'' ''g'' [], Property ''overrideOrig'' ''1'' []])
       ''overrideOrig'' ''0'' = ''1''
   \<and> ''g'' \<notin> fst ` set (obj example_loader Goo)
   \<and> collect [] ''p2'' ''P2'' Goo (0, example_loader)
        (Property ''Goo'' [] [Property ''id'' ''g'' [], Property ''overrideOrig'' ''1'' []])
     = Inr (0 + 1, example_loader\<lparr>obj := (obj example_loader)
          (Goo := obj example_loader Goo @
             [(''g'', [], Property ''Goo'' [] [Property ''id'' ''g'' [], Property ''overrideOrig'' ''1'' []],
               ''p2'', ''P2'')])\<rparr>)
   \<and> ''g'' \<in> fst ` set (obj (example_loader\<lparr>obj := (obj example_loader)
          (Goo := [(''g'', [], Property ''Goo'' [] [Property ''id'' ''g'' []], ''p1'', ''P1'')])\<rparr>) Goo)
   \<and> collect [] ''p2'' ''P2'' Goo
        (0, example_loader\<lparr>obj := (obj example_loader)
          (Goo := [(''g'', [], Property ''Goo'' [] [Property ''id'' ''g'' []], ''p1'', ''P1'')])\<rparr>)
        (Property ''Goo'' [] [Property ''id'' ''g'' [], Property ''overrideOrig'' ''1'' []])
     = Inr (1, example_loader\<lparr>obj := (obj example_loader)
          (Goo := [(''g'', [], Property ''Goo'' [] [Property ''id'' ''g'' []], ''p1'', ''P1'')]),
          obj_override := (obj_override example_loader)
            (Goo := OverList [([], Property ''Goo'' [] [Property ''id'' ''g'' [],
                                  Property ''overrideOrig'' ''1'' []])])\<rparr>)
   \<and> obj (example_loader\<lparr>obj := (obj example_loader)
          (Goo := [(''g'', [], Property ''Goo'' [] [Property ''id'' ''g'' []], ''p1'', ''P1'')]),
          obj_override := (obj_override example_loader)
            (Goo := OverList [([], Property ''Goo'' [] [Property ''id'' ''g'' [],
                                  Property ''overrideOrig'' ''1'' []])])\<rparr>)
     = obj (example_loader\<lparr>obj := (obj example_loader)
          (Goo := [(''g'', [], Property ''Goo'' [] [Property ''id'' ''g'' []], ''p1'', ''P1'')])\<rparr>)"
proof -
  let ?o = "Property ''Goo'' [] [Property ''id'' ''g'' [], Property ''overrideOrig'' ''1'' []]"
  let ?g = "example_loader\<lparr>obj := (obj example_loader)
          (Goo := [(''g'', [], Property ''Goo'' [] [Property ''id'' ''g'' []], ''p1'', ''P1'')])\<rparr>"
  let ?g' = "example_loader\<lparr>obj := (obj example_loader)
          (Goo := [(''g'', [], Property ''Goo'' [] [Property ''id'' ''g'' []], ''p1'', ''P1'')]),
          obj_override := (obj_override example_loader) (Goo := OverList [([], ?o)])\<rparr>"
  have a: "get_item ?o ''id'' = Inr ''g''" by (simp add: get_item_def)
  have b: "get_item_def ?o ''overrideOrig'' ''0'' = ''1''" by (simp add: get_item_def_def)
  have n: "''g'' \<notin> fst ` set (obj example_loader Goo)" by (simp add: example_loader_def)
  have m: "''g'' \<in> fst ` set (obj ?g Goo)" by simp
  have c: "collect [] ''p2'' ''P2'' Goo (0, ?g) ?o = Inr (1, ?g')"
    by (simp add: collect_def get_item_def get_item_def_def example_loader_def)
  from override_needs_original[OF a b, of example_loader Goo "[]" "''p2''" "''P2''" 0] n
  have 1: "collect [] ''p2'' ''P2'' Goo (0, example_loader) ?o
     = Inr (0 + 1, example_loader\<lparr>obj := (obj example_loader)
          (Goo := obj example_loader Goo @ [(''g'', [], ?o, ''p2'', ''P2'')])\<rparr>)"
    by blast
  from override_needs_original[OF a b, of ?g Goo "[]" "''p2''" "''P2''" 0 1 ?g'] m c
  have 2: "obj ?g' = obj ?g" by blast
  from a b n 1 m c 2 show ?thesis by blast
qed

text \<open>
  Claim C4 as stated fails. An override collected before any original of its id is not
  put on an override list: it becomes the original, and the override store stays the
  empty dict. And of two overrides collected after the original only the second is kept:
  the source assigns a one-element list to \<open>obj_override[comp_type]\<close> where it means
  \<open>obj_override[comp_type][id]\<close>.
\<close>

theorem override_counterexample:
  "collect [] ''p1'' ''P1'' Goo (0, example_loader)
     (Property ''Goo'' [] [Property ''id'' ''g'' [], Property ''overrideOrig'' ''1'' []])
   = Inr (1, example_loader\<lparr>obj := (obj example_loader)
        (Goo := [(''g'', [], Property ''Goo'' [] [Property ''id'' ''g'' [], Property ''overrideOrig'' ''1'' []],
                  ''p1'', ''P1'')])\<rparr>)
   \<and> obj_override example_loader Goo = OverDict []
   \<and> parse_package [] 
        [Property ''Goo'' [] [Property ''id'' ''g'' [], Property ''name'' ''original'' []],
         Property ''Goo'' [] [Property ''id'' ''g'' [], Property ''overrideOrig'' ''1'' [],
                              Property ''name'' ''first'' []],
         Property ''Goo'' [] [Property ''id'' ''g'' [], Property ''overrideOrig'' ''1'' [],
                              Property ''name'' ''second'' []]]
        ''packages/p1.zip'' ''p1'' ''P1'' example_loader
   = Inr (3, example_loader
        \<lparr>obj := (obj example_loader)
           (Goo := [(''g'', [], Property ''Goo'' [] [Property ''id'' ''g'' [], Property ''name'' ''original'' []],
                     ''p1'', ''P1'')]),
         obj_override := (obj_override example_loader)
           (Goo := OverList [([], Property ''Goo'' [] [Property ''id'' ''g'' [],
                                 Property ''overrideOrig'' ''1'' [], Property ''name'' ''second'' []])])\<rparr>)"
  by (simp add: parse_package_def find_key_children_def example_loader_def obj_types_def
      find_all_def collect_def get_item_def get_item_def_def)

section \<open>Properties of the category parsers\<close>

text \<open>
  Claim C10. \<open>Item.parse\<close> raises \<open>IndexError\<close> when the node has no \<open>version\<close>
  block; an item that \<open>Item.parse\<close> or \<open>Item.__init__\<close> returns has at least one
  version.
\<close>

theorem Item_parse_needs_version:
  "(find_all (children info) ''version'' = [] \<longrightarrow> Item_parse py zipf ident info = Inl IndexError)
   \<and> (Item_parse py zipf ident info = Inr it \<longrightarrow> versions it \<noteq> [])
   \<and> (Item_init ident vers = Inr it \<longrightarrow> versions it \<noteq> [])"
proof -
  have init: "versions i \<noteq> []" if "Item_init k vs = Inr i" for k vs i
    using that by (cases vs) (auto simp: Item_init_def)
  have 1: "Item_parse py zipf ident info = Inl IndexError"
    if "find_all (children info) ''version'' = []"
    using that by (simp add: Item_parse_def Item_init_def)
  have 2: "versions it \<noteq> []" if p: "Item_parse py zipf ident info = Inr it"
  proof -
    obtain vers folders vals where f:
      "foldl read_version ([], [], None) (find_all (children info) ''version'') = (vers, folders, vals)"
      by (cases "foldl read_version ([], [], None) (find_all (children info) ''version'')") auto
    from p f obtain fdata where "load_folders py zipf folders = Inr fdata"
      by (cases "load_folders py zipf folders") (auto simp: Item_parse_def)
    with p f obtain vers' where "rewrite_versions fdata (map_option def_style vals) vers = Inr vers'"
      and "Item_init ident vers' = Inr it"
      by (cases "rewrite_versions fdata (map_option def_style vals) vers") (auto simp: Item_parse_def)
    then show ?thesis using init by blast
  qed
  from 1 2 init show ?thesis by blast
qed

theorem Item_parse_needs_version_witness:
  "find_all (children (Property ''Item'' [] [Property ''id'' ''w'' []])) ''version'' = []
   \<and> Item_parse ascii_py [] ''w'' (Property ''Item'' [] [Property ''id'' ''w'' []]) = Inl IndexError
   \<and> Item_parse ascii_py [] ''w'' (Property ''Item'' [] [Property ''version'' [] []])
       = Inr (example_item ''w'' [example_version [] PyNone] PyNone)
   \<and> versions (example_item ''w'' [example_version [] PyNone] PyNone) \<noteq> []
   \<and> Item_init ''w'' [example_version [] PyNone]
       = Inr (example_item ''w'' [example_version [] PyNone] PyNone)"
proof -
  let ?it = "example_item ''w'' [example_version [] PyNone] PyNone"
  have e: "find_all (children (Property ''Item'' [] [Property ''id'' ''w'' []])) ''version'' = []"
    by (simp add: find_all_def)
  have p: "Item_parse ascii_py [] ''w'' (Property ''Item'' [] [Property ''version'' [] []]) = Inr ?it"
    by (simp add: Item_parse_def read_version_def prop_defs rewrite_version_def in_folders_def
        Item_init_def example_item_def example_version_def Let_def)
  have i: "Item_init ''w'' [example_version [] PyNone] = Inr ?it"
    by (simp add: Item_init_def example_item_def example_version_def)
  from Item_parse_needs_version[of "Property ''Item'' [] [Property ''id'' ''w'' []]" ascii_py "[]" "''w''"] e
  have 1: "Item_parse ascii_py [] ''w'' (Property ''Item'' [] [Property ''id'' ''w'' []]) = Inl IndexError"
    by blast
  from Item_parse_needs_version[of "Property ''Item'' [] [Property ''version'' [] []]" ascii_py "[]" "''w''" ?it] p
  have 2: "versions ?it \<noteq> []" by blast
  from e 1 p 2 i show ?thesis by blast
qed

lemma load_f1: "load_folder ascii_py example_archive ''f1'' = Inr (example_folder ''1'')"
  by (simp add: load_folder_def example_archive_def prop_defs ascii_defs example_folder_def Let_def)

lemma load_f2: "load_folder ascii_py example_archive ''f2'' = Inr (example_folder ''2'')"
  by (simp add: load_folder_def example_archive_def prop_defs ascii_defs example_folder_def Let_def)

lemma read_two:
  "foldl read_version ([], [], None) (find_all (children example_two_versions) ''version'')
   = ([example_version [(''A'', FolderId ''f1'')] (FolderId ''f1''),
       example_version [(''A'', FolderId ''f2'')] (FolderId ''f2'')],
      [''f1'', ''f2''],
      Some (example_version [(''A'', FolderId ''f2'')] (FolderId ''f2'')))"
  by (simp add: example_two_versions_def read_version_def read_sty_def prop_defs
      example_version_def Let_def)

text \<open>
  Claim C5 fails on the code. The item has two versions; the first declares folder
  \<open>f1\<close>, the second folder \<open>f2\<close>. After \<open>Item.parse\<close> the \<open>styles\<close> values of each version
  are the data of its own folder, but the \<open>def_style\<close> of the first version (and with it
  the item's \<open>def_data\<close>) is the data of \<open>f2\<close>, the folder of the last version.
\<close>

theorem def_style_of_last_version:
  "Item_parse ascii_py example_archive ''w'' example_two_versions
   = Inr (example_item ''w''
        [example_version [(''A'', FolderData (example_folder ''1''))] (FolderData (example_folder ''2'')),
         example_version [(''A'', FolderData (example_folder ''2''))] (FolderData (example_folder ''2''))]
        (FolderData (example_folder ''2'')))
   \<and> example_folder ''1'' \<noteq> example_folder ''2''"
  by (simp add: Item_parse_def read_two load_f1 load_f2 rewrite_version_def in_folders_def
      folders_get_def Item_init_def example_item_def example_version_def example_folder_def)

text \<open>
  Claim C6 fails on the code for \<open>Skybox\<close>: \<open>Skybox.add_over\<close> raises \<open>NameError\<close> for
  every original and override, while \<open>Goo\<close>, \<open>Music\<close> and \<open>StyleVar\<close> append the
  override's lists to the original's and return.
\<close>

theorem Skybox_add_over_raises:
  "Skybox_add_over self override = Inl (NameError ''sky'')
   \<and> Goo_add_over g1 g2 = Inr (g1\<lparr>goo_config := goo_config g1 @ goo_config g2,
                                    goo_auth := goo_auth g1 @ goo_auth g2\<rparr>)
   \<and> Music_add_over m1 m2 = Inr (m1\<lparr>music_config := music_config m1 @ music_config m2,
                                      music_auth := music_auth m1 @ music_auth m2\<rparr>)
   \<and> StyleVar_add_over v1 v2 = Inr (v1\<lparr>stylevar_styles := stylevar_styles v1 @ stylevar_styles v2\<rparr>)"
  by (simp add: Skybox_add_over_def Goo_add_over_def Music_add_over_def StyleVar_add_over_def)

lemma zip_open_absent: "path \<notin> set (namelist zipf) \<Longrightarrow> zip_open zipf path = Inl (KeyError path)"
proof -
  assume "path \<notin> set (namelist zipf)"
  then have "map_of zipf path = None" by (simp add: namelist_def map_of_eq_None_iff)
  then show ?thesis by (simp add: zip_open_def)
qed

text \<open>
  Claim C7, as amended. Let the selection metadata of the node be readable. If the
  node of a \<open>Skybox\<close> names a configuration and \<open>skybox/<name>.cfg\<close> is no entry of the
  archive, \<open>Skybox.parse\<close> prints \<open><name>.cfg not in zip!\<close> and returns the object with
  an empty configuration. If \<open>goo/<config>\<close> is no entry, \<open>Goo.parse\<close> returns the
  object with an empty configuration, and so does \<open>Music.parse\<close> for \<open>music/<config>\<close>
  when the node has its \<open>instance\<close>; these two print nothing.
\<close>

theorem absent_config_tolerated:
  assumes sel: "get_selitem_data py info = Inr (nm, sn, auth, icon, desc)"
  shows "(get_item_def info ''config'' [] \<noteq> [] \<and> ''skybox/'' @ nm @ ''.cfg'' \<notin> set (namelist zipf)
           \<longrightarrow> Skybox_parse py zipf ident info =
                 ([nm @ ''.cfg not in zip!''],
                  Inr (Skybox_init ident nm icon [] (get_item_def info ''material'' ''sky_black'')
                         auth desc sn)))
       \<and> (''goo/'' @ get_item_def info ''config'' [] \<notin> set (namelist zipf)
           \<longrightarrow> silent (Goo_parse py) zipf ident info =
                 ([], Inr (Goo_init ident nm icon
                        (get_item_def info ''material'' ''nature/toxicslime_a2_bridge_intro'')
                        (get_item_def info ''material_cheap''
                           (get_item_def info ''material'' ''nature/toxicslime_a2_bridge_intro''))
                        auth desc sn (Some []))))
       \<and> (get_item info ''instance'' = Inr inst \<and>
            ''music/'' @ get_item_def info ''config'' [] \<notin> set (namelist zipf)
           \<longrightarrow> silent (Music_parse py) zipf ident info =
                 ([], Inr (Music_init ident nm icon inst auth desc sn (Some []))))"
proof -
  have 1: "Skybox_parse py zipf ident info =
                 ([nm @ ''.cfg not in zip!''],
                  Inr (Skybox_init ident nm icon [] (get_item_def info ''material'' ''sky_black'')
                         auth desc sn))"
    if "get_item_def info ''config'' [] \<noteq> []" "''skybox/'' @ nm @ ''.cfg'' \<notin> set (namelist zipf)"
    using that sel by (simp add: Skybox_parse_def Let_def)
  have 2: "silent (Goo_parse py) zipf ident info =
                 ([], Inr (Goo_init ident nm icon
                        (get_item_def info ''material'' ''nature/toxicslime_a2_bridge_intro'')
                        (get_item_def info ''material_cheap''
                           (get_item_def info ''material'' ''nature/toxicslime_a2_bridge_intro''))
                        auth desc sn (Some [])))"
    if "''goo/'' @ get_item_def info ''config'' [] \<notin> set (namelist zipf)"
    using that sel by (simp add: silent_def Goo_parse_def Let_def)
  have 3: "silent (Music_parse py) zipf ident info =
                 ([], Inr (Music_init ident nm icon inst auth desc sn (Some [])))"
    if "get_item info ''instance'' = Inr inst"
      "''music/'' @ get_item_def info ''config'' [] \<notin> set (namelist zipf)"
    using that sel by (simp add: silent_def Music_parse_def Let_def)
  from 1 2 3 show ?thesis by blast
qed

theorem absent_config_tolerated_witness:
  "get_selitem_data ascii_py
      (Property ''Skybox'' []
         [Property ''id'' ''s'' [], Property ''name'' ''Sky'' [], Property ''config'' ''sky.cfg'' [],
          Property ''instance'' ''inst.vmf'' []])
     = Inr (''Sky'', None, [], ''_blank'', [])
   \<and> Skybox_parse ascii_py [] ''s''
      (Property ''Skybox'' []
         [Property ''id'' ''s'' [], Property ''name'' ''Sky'' [], Property ''config'' ''sky.cfg'' [],
          Property ''instance'' ''inst.vmf'' []])
     = ([''Sky.cfg not in zip!''],
        Inr (Skybox_init ''s'' ''Sky'' ''_blank'' [] ''sky_black'' [] [] None))
   \<and> silent (Goo_parse ascii_py) [] ''s''
      (Property ''Skybox'' []
         [Property ''id'' ''s'' [], Property ''name'' ''Sky'' [], Property ''config'' ''sky.cfg'' [],
          Property ''instance'' ''inst.vmf'' []])
     = ([], Inr (Goo_init ''s'' ''Sky'' ''_blank'' ''nature/toxicslime_a2_bridge_intro''
                   ''nature/toxicslime_a2_bridge_intro'' [] [] None (Some [])))
   \<and> silent (Music_parse ascii_py) [] ''s''
      (Property ''Skybox'' []
         [Property ''id'' ''s'' [], Property ''name'' ''Sky'' [], Property ''config'' ''sky.cfg'' [],
          Property ''instance'' ''inst.vmf'' []])
     = ([], Inr (Music_init ''s'' ''Sky'' ''_blank'' ''inst.vmf'' [] [] None (Some [])))
   \<and> skybox_config (Skybox_init ''s'' ''Sky'' ''_blank'' [] ''sky_black'' [] [] None) = []
   \<and> goo_config (Goo_init ''s'' ''Sky'' ''_blank'' ''nature/toxicslime_a2_bridge_intro''
                   ''nature/toxicslime_a2_bridge_intro'' [] [] None (Some [])) = []
   \<and> music_config (Music_init ''s'' ''Sky'' ''_blank'' ''inst.vmf'' [] [] None (Some [])) = []"
proof -
  let ?n = "Property ''Skybox'' []
         [Property ''id'' ''s'' [], Property ''name'' ''Sky'' [], Property ''config'' ''sky.cfg'' [],
          Property ''instance'' ''inst.vmf'' []]"
  have sel: "get_selitem_data ascii_py ?n = Inr (''Sky'', None, [], ''_blank'', [])"
    by (simp add: prop_defs ascii_defs Let_def)
  have h1: "get_item_def ?n ''config'' [] \<noteq> [] \<and> ''skybox/'' @ ''Sky'' @ ''.cfg'' \<notin> set (namelist [])"
    by (simp add: prop_defs)
  have h2: "''goo/'' @ get_item_def ?n ''config'' [] \<notin> set (namelist [])"
    by (simp add: prop_defs)
  have h3: "get_item ?n ''instance'' = Inr ''inst.vmf'' \<and>
            ''music/'' @ get_item_def ?n ''config'' [] \<notin> set (namelist [])"
    by (simp add: prop_defs)
  have m: "get_item_def ?n ''material'' ''sky_black'' = ''sky_black''"
    "get_item_def ?n ''material'' ''nature/toxicslime_a2_bridge_intro'' = ''nature/toxicslime_a2_bridge_intro''"
    "get_item_def ?n ''material_cheap'' ''nature/toxicslime_a2_bridge_intro'' = ''nature/toxicslime_a2_bridge_intro''"
    by (simp_all add: prop_defs)
  from absent_config_tolerated[OF sel, of "[]" "''s''" "''inst.vmf''"] h1 h2 h3
  have "Skybox_parse ascii_py [] ''s'' ?n =
                 ([''Sky'' @ ''.cfg not in zip!''],
                  Inr (Skybox_init ''s'' ''Sky'' ''_blank'' [] (get_item_def ?n ''material'' ''sky_black'')
                         [] [] None))"
    and "silent (Goo_parse ascii_py) [] ''s'' ?n =
                 ([], Inr (Goo_init ''s'' ''Sky'' ''_blank''
                        (get_item_def ?n ''material'' ''nature/toxicslime_a2_bridge_intro'')
                        (get_item_def ?n ''material_cheap''
                           (get_item_def ?n ''material'' ''nature/toxicslime_a2_bridge_intro''))
                        [] [] None (Some [])))"
    and "silent (Music_parse ascii_py) [] ''s'' ?n =
                 ([], Inr (Music_init ''s'' ''Sky'' ''_blank'' ''inst.vmf'' [] [] None (Some [])))"
    by blast+
  with sel m show ?thesis by (simp add: Skybox_init_def Goo_init_def Music_init_def)
qed

text \<open>
  Claim C7 as stated fails. For \<open>Voice\<close>: the node names the file \<open>lines\<close>, the archive
  has no entry \<open>voice/lines.voice\<close>, and \<open>Voice.parse\<close> raises. For \<open>Goo\<close> and
  \<open>Music\<close>: the node names a configuration that the archive does not have, and the
  parser returns without printing a line.
\<close>

theorem absent_config_counterexample:
  "Voice_parse ascii_py [] ''v''
       (Property ''QuotePack'' []
          [Property ''id'' ''v'' [], Property ''name'' ''V'' [], Property ''file'' ''lines'' []])
     = Inl (KeyError ''voice/lines.voice'')
   \<and> silent (Goo_parse ascii_py) [] ''g''
       (Property ''Goo'' []
          [Property ''id'' ''g'' [], Property ''name'' ''G'' [], Property ''config'' ''goo.cfg'' []])
     = ([], Inr (Goo_init ''g'' ''G'' ''_blank'' ''nature/toxicslime_a2_bridge_intro''
                   ''nature/toxicslime_a2_bridge_intro'' [] [] None (Some [])))
   \<and> silent (Music_parse ascii_py) [] ''m''
       (Property ''Music'' []
          [Property ''id'' ''m'' [], Property ''name'' ''M'' [], Property ''instance'' ''m.vmf'' [],
           Property ''config'' ''music.cfg'' []])
     = ([], Inr (Music_init ''m'' ''M'' ''_blank'' ''m.vmf'' [] [] None (Some [])))"
  by (simp add: Voice_parse_def Goo_parse_def Music_parse_def silent_def prop_defs ascii_defs Let_def)

section \<open>Properties of the whole load\<close>

lemma get_item_error: "get_item p key = Inl e \<Longrightarrow> e = MissingField key"
  by (auto simp: get_item_def split: option.splits)

lemma collect_noid: "get_item object ''id'' = Inl e \<Longrightarrow> collect zipf pak dn ct st object = Inl e"
  by (cases st) (simp add: collect_def)

lemma collect_error:
  assumes "collect zipf pak dn ct (n, g) object = Inl e"
    and "\<forall>c k. \<not> in_over (obj_override g c) k"
  shows "e = MissingField ''id''"
proof (cases "get_item object ''id''")
  case (Inl e')
  with assms(1) have "e = e'" by (simp add: collect_def)
  with Inl show ?thesis by (auto dest: get_item_error)
next
  case (Inr ident)
  with assms show ?thesis
    by (auto simp: collect_def Let_def split: if_splits sum.splits)
qed

lemma collect_inv:
  assumes "collect zipf pak dn ct (n, g) object = Inr (n', g')"
    and "\<forall>c k. \<not> in_over (obj_override g c) k"
  shows "(\<forall>c k. \<not> in_over (obj_override g' c) k) \<and> packages g' = packages g"
proof (cases "get_item object ''id''")
  case (Inl e')
  with assms(1) show ?thesis by (simp add: collect_def)
next
  case (Inr ident)
  with assms show ?thesis
    by (auto simp: collect_def Let_def split: if_splits sum.splits)
qed

lemma fold_err_inv:
  assumes "\<And>st x st'. I st \<Longrightarrow> f st x = Inr st' \<Longrightarrow> I st'"
  shows "I st \<Longrightarrow> fold_err f st xs = Inr st' \<Longrightarrow> I st'"
proof (induction xs arbitrary: st)
  case Nil
  then show ?case by simp
next
  case (Cons x xs)
  from Cons.prems(2) obtain st1 where 1: "f st x = Inr st1" and 2: "fold_err f st1 xs = Inr st'"
    by (auto split: sum.splits)
  from assms[OF Cons.prems(1) 1] have "I st1" .
  from Cons.IH[OF this 2] show ?case .
qed

lemma fold_err_error:
  assumes inv: "\<And>st x st'. I st \<Longrightarrow> f st x = Inr st' \<Longrightarrow> I st'"
    and err: "\<And>st x e'. I st \<Longrightarrow> f st x = Inl e' \<Longrightarrow> e' = e"
  shows "I st \<Longrightarrow> fold_err f st xs = Inl e' \<Longrightarrow> e' = e"
proof (induction xs arbitrary: st)
  case Nil
  then show ?case by simp
next
  case (Cons x xs)
  show ?case
  proof (cases "f st x")
    case (Inl e1)
    with Cons.prems(2) have "e' = e1" by simp
    with err[OF Cons.prems(1) Inl] show ?thesis by simp
  next
    case (Inr st1)
    with Cons.prems(2) have 2: "fold_err f st1 xs = Inl e'" by simp
    from inv[OF Cons.prems(1) Inr] have "I st1" .
    from Cons.IH[OF this 2] show ?thesis .
  qed
qed

lemma fold_err_fails:
  assumes inv: "\<And>st x st'. I st \<Longrightarrow> f st x = Inr st' \<Longrightarrow> I st'"
    and err: "\<And>st x e'. I st \<Longrightarrow> f st x = Inl e' \<Longrightarrow> e' = e"
    and bad: "\<And>st. I st \<Longrightarrow> \<exists>e'. f st x0 = Inl e'"
  shows "x0 \<in> set xs \<Longrightarrow> I st \<Longrightarrow> fold_err f st xs = Inl e"
proof (induction xs arbitrary: st)
  case Nil
  then show ?case by simp
next
  case (Cons x xs)
  show ?case
  proof (cases "f st x")
    case (Inl e1)
    with err[OF Cons.prems(2) Inl] show ?thesis by simp
  next
    case (Inr st1)
    from inv[OF Cons.prems(2) Inr] have I1: "I st1" .
    have "x \<noteq> x0" using bad[OF Cons.prems(2)] Inr by auto
    with Cons.prems(1) have "x0 \<in> set xs" by simp
    from Cons.IH[OF this I1] Inr show ?thesis by simp
  qed
qed

lemma collect_scanning:
  "scanning P (snd st) \<Longrightarrow> collect zipf pak dn ct st x = Inr st' \<Longrightarrow> scanning P (snd st')"
  using collect_inv[of zipf pak dn ct "fst st" "snd st" x "fst st'" "snd st'"]
  by (simp add: scanning_def)

lemma collect_scan_err:
  "scanning P (snd st) \<Longrightarrow> collect zipf pak dn ct st x = Inl e \<Longrightarrow> e = MissingField ''id''"
  using collect_error[of zipf pak dn ct "fst st" "snd st" x e]
  by (simp add: scanning_def)

lemma cat_scanning:
  "scanning P (snd st) \<Longrightarrow> fold_err (collect zipf pak dn ct) st xs = Inr st' \<Longrightarrow> scanning P (snd st')"
  by (rule fold_err_inv[where I = "\<lambda>st. scanning P (snd st)" and f = "collect zipf pak dn ct"])
     (auto intro: collect_scanning)

lemma cat_scan_err:
  "scanning P (snd st) \<Longrightarrow> fold_err (collect zipf pak dn ct) st xs = Inl e \<Longrightarrow> e = MissingField ''id''"
  by (rule fold_err_error[where I = "\<lambda>st. scanning P (snd st)" and f = "collect zipf pak dn ct"])
     (auto intro: collect_scanning collect_scan_err)

lemma cat_fails:
  assumes "x0 \<in> set xs" "get_item x0 ''id'' = Inl e0" "scanning P (snd st)"
  shows "fold_err (collect zipf pak dn ct) st xs = Inl (MissingField ''id'')"
proof (rule fold_err_fails[where I = "\<lambda>st. scanning P (snd st)" and ?x0.0 = x0])
  show "\<And>st x st'. scanning P (snd st) \<Longrightarrow> collect zipf pak dn ct st x = Inr st' \<Longrightarrow> scanning P (snd st')"
    by (rule collect_scanning)
  show "\<And>st x e'. scanning P (snd st) \<Longrightarrow> collect zipf pak dn ct st x = Inl e' \<Longrightarrow> e' = MissingField ''id''"
    by (rule collect_scan_err)
  show "\<And>st. scanning P (snd st) \<Longrightarrow> \<exists>e'. collect zipf pak dn ct st x0 = Inl e'"
    using collect_noid[OF assms(2)] by blast
  show "x0 \<in> set xs" by fact
  show "scanning P (snd st)" by fact
qed

lemma all_categories: "c \<in> set obj_types"
  by (cases c) (simp_all add: obj_types_def)

lemma parse_package_scanning:
  assumes "scanning P g" "parse_package zipf info fn pak dn g = Inr (m, g')"
  shows "scanning P g'"
proof (cases "find (\<lambda>pre. pvalue pre \<notin> fst ` set (packages g)) (find_key_children info ''Prerequisites'')")
  case (Some pre)
  with assms show ?thesis by (auto simp: parse_package_def scanning_def)
next
  case None
  with assms(2) have f:
    "fold_err (\<lambda>st comp_type. fold_err (collect zipf pak dn comp_type) st
        (find_all info (type_name comp_type))) (0, g) obj_types = Inr (m, g')"
    by (simp add: parse_package_def)
  have "scanning P (snd (m, g'))"
    by (rule fold_err_inv[where I = "\<lambda>st. scanning P (snd st)", OF _ _ f])
       (auto intro: cat_scanning assms(1))
  then show ?thesis by simp
qed

lemma parse_package_scan_err:
  assumes "scanning P g" "parse_package zipf info fn pak dn g = Inl e"
  shows "e = MissingField ''id''"
proof (cases "find (\<lambda>pre. pvalue pre \<notin> fst ` set (packages g)) (find_key_children info ''Prerequisites'')")
  case (Some pre)
  with assms show ?thesis by (auto simp: parse_package_def)
next
  case None
  with assms(2) have f:
    "fold_err (\<lambda>st comp_type. fold_err (collect zipf pak dn comp_type) st
        (find_all info (type_name comp_type))) (0, g) obj_types = Inl e"
    by (simp add: parse_package_def)
  show ?thesis
    by (rule fold_err_error[where I = "\<lambda>st. scanning P (snd st)", OF _ _ _ f])
       (auto intro: cat_scanning cat_scan_err assms(1))
qed

lemma parse_package_fails:
  assumes sc: "scanning P g"
    and prereq: "\<forall>pre \<in> set (find_key_children info ''Prerequisites''). pvalue pre \<in> fst ` set P"
    and node: "node \<in> set (find_all info (type_name c))"
    and noid: "get_item node ''id'' = Inl e0"
  shows "parse_package zipf info fn pak dn g = Inl (MissingField ''id'')"
proof -
  have "packages g = P" using sc by (simp add: scanning_def)
  with prereq have
    "find (\<lambda>pre. pvalue pre \<notin> fst ` set (packages g)) (find_key_children info ''Prerequisites'') = None"
    by (simp add: find_None_iff)
  then have pp: "parse_package zipf info fn pak dn g =
    fold_err (\<lambda>st comp_type. fold_err (collect zipf pak dn comp_type) st
        (find_all info (type_name comp_type))) (0, g) obj_types"
    by (simp add: parse_package_def)
  have "fold_err (\<lambda>st comp_type. fold_err (collect zipf pak dn comp_type) st
        (find_all info (type_name comp_type))) (0, g) obj_types = Inl (MissingField ''id'')"
  proof (rule fold_err_fails[where I = "\<lambda>st. scanning P (snd st)" and ?x0.0 = c])
    show "\<And>st x st'. scanning P (snd st) \<Longrightarrow>
        fold_err (collect zipf pak dn x) st (find_all info (type_name x)) = Inr st' \<Longrightarrow>
        scanning P (snd st')"
      by (rule cat_scanning)
    show "\<And>st x e'. scanning P (snd st) \<Longrightarrow>
        fold_err (collect zipf pak dn x) st (find_all info (type_name x)) = Inl e' \<Longrightarrow>
        e' = MissingField ''id''"
      by (rule cat_scan_err)
    show "\<And>st. scanning P (snd st) \<Longrightarrow>
        \<exists>e'. fold_err (collect zipf pak dn c) st (find_all info (type_name c)) = Inl e'"
      using cat_fails[OF node noid] by blast
    show "c \<in> set obj_types" by (rule all_categories)
    show "scanning P (snd (0::nat, g))" using sc by simp
  qed
  with pp show ?thesis by simp
qed

lemma scan_package_scanning:
  assumes "scanning P (snd st)" "scan_package st kp = Inr st'"
  shows "scanning P (snd st')"
proof -
  obtain n g where st: "st = (n, g)" by (cases st)
  obtain k ident zipf info nm dn where kp: "kp = (k, ident, zipf, info, nm, dn)"
    by (cases kp) auto
  let ?g = "g\<lparr>printed := printed g @ [''Scanning package '' @ [CHR 0x27] @ ident @ [CHR 0x27]]\<rparr>"
  have sg: "scanning P ?g" using assms(1) st by (simp add: scanning_def)
  from assms(2) st kp obtain m g' where pp: "parse_package zipf info nm ident dn ?g = Inr (m, g')"
    and st': "st' = (n + m, g'\<lparr>printed := printed g' @ [''Done!'']\<rparr>)"
    by (auto simp: scan_package_def split: sum.splits)
  from parse_package_scanning[OF sg pp] st' show ?thesis by (simp add: scanning_def)
qed

lemma scan_package_scan_err:
  assumes "scanning P (snd st)" "scan_package st kp = Inl e"
  shows "e = MissingField ''id''"
proof -
  obtain n g where st: "st = (n, g)" by (cases st)
  obtain k ident zipf info nm dn where kp: "kp = (k, ident, zipf, info, nm, dn)"
    by (cases kp) auto
  let ?g = "g\<lparr>printed := printed g @ [''Scanning package '' @ [CHR 0x27] @ ident @ [CHR 0x27]]\<rparr>"
  have sg: "scanning P ?g" using assms(1) st by (simp add: scanning_def)
  from assms(2) st kp have pp: "parse_package zipf info nm ident dn ?g = Inl e"
    by (auto simp: scan_package_def split: sum.splits)
  from parse_package_scan_err[OF sg pp] show ?thesis .
qed

lemma scan_package_fails:
  assumes sc: "scanning P (snd st)"
    and prereq: "\<forall>pre \<in> set (find_key_children info ''Prerequisites''). pvalue pre \<in> fst ` set P"
    and node: "node \<in> set (find_all info (type_name c))"
    and noid: "get_item node ''id'' = Inl e0"
  shows "scan_package st (k, ident, zipf, info, nm, dn) = Inl (MissingField ''id'')"
proof -
  obtain n g where st: "st = (n, g)" by (cases st)
  let ?g = "g\<lparr>printed := printed g @ [''Scanning package '' @ [CHR 0x27] @ ident @ [CHR 0x27]]\<rparr>"
  have sg: "scanning P ?g" using sc st by (simp add: scanning_def)
  from parse_package_fails[OF sg prereq node noid]
  show ?thesis using st by (simp add: scan_package_def)
qed

lemma read_one:
  "find_key info ''ID'' = Inr (Property ''ID'' k []) \<Longrightarrow> find (\<lambda>p. name p = ''Name'') info = None \<Longrightarrow>
   read_package g (example_entry n info) =
     Inr (g\<lparr>printed := printed g @ [''Reading package file '' @ [CHR 0x27] @ n @ ''.zip'' @ [CHR 0x27]],
           packages := AList.update k (k, [(''info.txt'', info)], info, ''packages/'' @ n @ ''.zip'', k)
                         (packages g)\<rparr>)"
  by (simp add: read_package_def example_entry_def endswith_def namelist_def zip_open_def Let_def)

text \<open>
  Claim C8, as amended. A category node without the field \<open>id\<close>, in a package that is
  registered and whose prerequisites are registered, makes \<open>parse_package\<close> raise
  \<open>MissingField\<close>; nothing catches it, so \<open>loadAll\<close> raises it too: the remaining
  definitions of that package and those of the packages scanned after it are not
  collected, no object is parsed and no data is returned.
\<close>

theorem missing_id_aborts_load:
  assumes read: "fold_err read_package g0 contents = Inr g1"
    and pkg: "(k, ident, zipf, info, nm, dn) \<in> set (packages g1)"
    and prereq: "\<forall>pre \<in> set (find_key_children info ''Prerequisites'').
                   pvalue pre \<in> fst ` set (packages g1)"
    and node: "node \<in> set (find_all info (type_name c))"
    and noid: "get_item node ''id'' = Inl (MissingField ''id'')"
  shows "loadAll py g0 contents load_res = Some (Inl (MissingField ''id''))"
proof -
  let ?g2 = "g1\<lparr>obj := (\<lambda>_. []), obj_override := (\<lambda>_. OverDict [])\<rparr>"
  let ?P = "packages g1"
  have sc: "scanning ?P (snd (0::nat, ?g2))" by (simp add: scanning_def)
  have "fold_err scan_package (0, ?g2) ?P = Inl (MissingField ''id'')"
  proof (rule fold_err_fails[where I = "\<lambda>st. scanning ?P (snd st)"
        and ?x0.0 = "(k, ident, zipf, info, nm, dn)"])
    show "\<And>st x st'. scanning ?P (snd st) \<Longrightarrow> scan_package st x = Inr st' \<Longrightarrow> scanning ?P (snd st')"
      by (rule scan_package_scanning)
    show "\<And>st x e'. scanning ?P (snd st) \<Longrightarrow> scan_package st x = Inl e' \<Longrightarrow> e' = MissingField ''id''"
      by (rule scan_package_scan_err)
    show "\<And>st. scanning ?P (snd st) \<Longrightarrow> \<exists>e'. scan_package st (k, ident, zipf, info, nm, dn) = Inl e'"
      using scan_package_fails[OF _ prereq node noid] by blast
    show "(k, ident, zipf, info, nm, dn) \<in> set ?P" by (rule pkg)
    show "scanning ?P (snd (0::nat, ?g2))" by (rule sc)
  qed
  then show ?thesis using read by (simp add: loadAll_def)
qed

theorem missing_id_aborts_load_witness:
  "fold_err read_package example_loader
     [example_entry ''p1''
        [Property ''ID'' ''p1'' [],
         Property ''StyleVar'' [] [Property ''id'' ''v'' [], Property ''name'' ''V'' []]],
      example_entry ''p2''
        [Property ''ID'' ''p2'' [],
         Property ''Prerequisites'' [] [Property ''pre'' ''p1'' []],
         Property ''Goo'' [] [Property ''name'' ''no id'' []]]]
   = Inr (example_loader
       \<lparr>printed := [''Reading package file '' @ [CHR 0x27] @ ''p1.zip'' @ [CHR 0x27],
                    ''Reading package file '' @ [CHR 0x27] @ ''p2.zip'' @ [CHR 0x27]],
        packages :=
          [(''p1'', ''p1'',
            [(''info.txt'', [Property ''ID'' ''p1'' [],
               Property ''StyleVar'' [] [Property ''id'' ''v'' [], Property ''name'' ''V'' []]])],
            [Property ''ID'' ''p1'' [],
             Property ''StyleVar'' [] [Property ''id'' ''v'' [], Property ''name'' ''V'' []]],
            ''packages/p1.zip'', ''p1''),
           (''p2'', ''p2'',
            [(''info.txt'', [Property ''ID'' ''p2'' [],
               Property ''Prerequisites'' [] [Property ''pre'' ''p1'' []],
               Property ''Goo'' [] [Property ''name'' ''no id'' []]])],
            [Property ''ID'' ''p2'' [],
             Property ''Prerequisites'' [] [Property ''pre'' ''p1'' []],
             Property ''Goo'' [] [Property ''name'' ''no id'' []]],
            ''packages/p2.zip'', ''p2'')]\<rparr>)
   \<and> get_item (Property ''Goo'' [] [Property ''name'' ''no id'' []]) ''id'' = Inl (MissingField ''id'')
   \<and> loadAll ascii_py example_loader
     [example_entry ''p1''
        [Property ''ID'' ''p1'' [],
         Property ''StyleVar'' [] [Property ''id'' ''v'' [], Property ''name'' ''V'' []]],
      example_entry ''p2''
        [Property ''ID'' ''p2'' [],
         Property ''Prerequisites'' [] [Property ''pre'' ''p1'' []],
         Property ''Goo'' [] [Property ''name'' ''no id'' []]]]
     True
   = Some (Inl (MissingField ''id''))"
proof -
  let ?i1 = "[Property ''ID'' ''p1'' [],
         Property ''StyleVar'' [] [Property ''id'' ''v'' [], Property ''name'' ''V'' []]]"
  let ?i2 = "[Property ''ID'' ''p2'' [],
         Property ''Prerequisites'' [] [Property ''pre'' ''p1'' []],
         Property ''Goo'' [] [Property ''name'' ''no id'' []]]"
  let ?node = "Property ''Goo'' [] [Property ''name'' ''no id'' []]"
  let ?g1 = "example_loader
       \<lparr>printed := [''Reading package file '' @ [CHR 0x27] @ ''p1.zip'' @ [CHR 0x27],
                    ''Reading package file '' @ [CHR 0x27] @ ''p2.zip'' @ [CHR 0x27]],
        packages :=
          [(''p1'', ''p1'', [(''info.txt'', ?i1)], ?i1, ''packages/p1.zip'', ''p1''),
           (''p2'', ''p2'', [(''info.txt'', ?i2)], ?i2, ''packages/p2.zip'', ''p2'')]\<rparr>"
  have read: "fold_err read_package example_loader [example_entry ''p1'' ?i1, example_entry ''p2'' ?i2]
      = Inr ?g1"
    by (simp add: read_one find_key_def example_loader_def)
  have pkg: "(''p2'', ''p2'', [(''info.txt'', ?i2)], ?i2, ''packages/p2.zip'', ''p2'') \<in> set (packages ?g1)"
    by simp
  have prereq: "\<forall>pre \<in> set (find_key_children ?i2 ''Prerequisites'').
                   pvalue pre \<in> fst ` set (packages ?g1)"
    by (simp add: find_key_children_def)
  have node: "?node \<in> set (find_all ?i2 (type_name Goo))"
    by (simp add: find_all_def)
  have noid: "get_item ?node ''id'' = Inl (MissingField ''id'')"
    by (simp add: get_item_def)
  from missing_id_aborts_load[OF read pkg prereq node noid, of ascii_py True] read noid
  show ?thesis by simp
qed

text \<open>
  Claim C8 as stated fails: the first package has a \<open>Style\<close> node without \<open>id\<close> and a
  well-formed \<open>StyleVar\<close>, the second package is well-formed, and the load raises
  instead of completing.
\<close>

theorem missing_id_counterexample:
  "loadAll ascii_py example_loader
     [example_entry ''p1''
        [Property ''ID'' ''p1'' [],
         Property ''Style'' [] [Property ''name'' ''no id'' []],
         Property ''StyleVar'' [] [Property ''id'' ''v'' [], Property ''name'' ''V'' []]],
      example_entry ''p2''
        [Property ''ID'' ''p2'' [],
         Property ''StyleVar'' [] [Property ''id'' ''w'' [], Property ''name'' ''W'' []]]]
     False
   = Some (Inl (MissingField ''id''))"
  by (simp add: loadAll_def read_one find_key_def example_loader_def scan_package_def
      parse_package_def find_key_children_def obj_types_def find_all_def collect_def get_item_def)

end
